theory Spec2Isabelle
  imports Main "HOL-Library.Sublist" "HOL-Library.Multiset"
begin

section \<open>JavaScript values\<close>

text \<open>
  JavaScript numbers that hold integers are modelled as \<^typ>\<open>int\<close>; a \<open>Buffer\<close> is the
  list of its bytes, each an \<^typ>\<open>int\<close> between 0 and 255.  Strings are lists of 8-bit
  characters (code points U+0000 to U+00FF).  A thrown \<open>Error\<close> is the left summand of
  the result, carrying its message.
\<close>

datatype js_error = Error string | NonError

text \<open>
  \<open>hay.indexOf(needle)\<close>: the first position at which \<open>needle\<close> starts, or -1.
\<close>

fun indexOf_from :: "string \<Rightarrow> string \<Rightarrow> int \<Rightarrow> int" where
  "indexOf_from [] needle i = (if needle = [] then i else - 1)"
| "indexOf_from (x # xs) needle i =
     (if prefix needle (x # xs) then i else indexOf_from xs needle (i + 1))"

definition indexOf :: "string \<Rightarrow> string \<Rightarrow> int" where
  "indexOf hay needle = indexOf_from hay needle 0"

section \<open>Base58\<close>

definition BASE58_ALPHABET :: string where
  "BASE58_ALPHABET = ''123456789ABCDEFGHJKLMNPQRSTUVWXYZabcdefghijkmnopqrstuvwxyz''"

text \<open>
  The inner loop of \<open>base58Decode\<close>, \<open>for (let i = 0; i < bytes.length; i++)\<close>: the bound
  is read again in every round, so the byte that a round pushes is visited by the next
  one.  \<open>carry\<close> is the index of the character in the alphabet and stays what it is.
  The test \<open>0 \<le> carry \<and> carry < 58\<close> is not in the source: it holds for every index into
  the alphabet of 58 characters, and without it the loop would not end for large values.
\<close>

function decode_inner :: "int \<Rightarrow> int list \<Rightarrow> nat \<Rightarrow> int list" where
  "decode_inner carry bytes i =
     (if i < length bytes \<and> 0 \<le> carry \<and> carry < 58 then
        (let n = bytes ! i * 58 + carry;
             bytes1 = bytes[i := n mod 256]
         in if i = length bytes1 - 1 \<and> n \<ge> 256
            then decode_inner carry (bytes1 @ [n div 256]) (i + 1)
            else if n \<ge> 256
            then decode_inner carry (bytes1[i + 1 := bytes1 ! (i + 1) + n div 256]) (i + 1)
            else decode_inner carry bytes1 (i + 1))
      else bytes)"
  by pat_completeness auto
termination
proof (relation "measures [\<lambda>(carry, bytes, i). length bytes - i, \<lambda>(carry, bytes, i). nat (bytes ! i)]", goal_cases)
  case 1
  then show ?case by simp
next
  case (2 carry bytes i n bytes1)
  have len: "length bytes1 = length bytes"
    using 2(3) by simp
  have i: "Suc i = length bytes"
    using 2(1) 2(4) len by arith
  have n: "256 \<le> bytes ! i * 58 + carry"
    using 2(2) 2(4) by blast
  have c: "carry < 58"
    using 2(1) by blast
  have lt: "(bytes ! i * 58 + carry) div 256 < bytes ! i"
    using n c by linarith
  have pos: "0 < bytes ! i"
    using n c by linarith
  have "(bytes1 @ [n div 256]) ! Suc i = n div 256"
    using i len by (simp add: nth_append)
  then have "nat ((bytes1 @ [n div 256]) ! Suc i) < nat (bytes ! i)"
    using lt pos 2(2) by simp
  moreover have "length (bytes1 @ [n div 256]) - Suc i = length bytes - i"
    using i len by simp
  ultimately show ?case
    by simp
next
  case (3 carry bytes i n bytes1)
  have "length (bytes1[i + 1 := bytes1 ! (i + 1) + n div 256]) = length bytes"
    using 3(3) by simp
  moreover have "length bytes - Suc i < length bytes - i"
    using 3(1) by arith
  ultimately show ?case by simp
next
  case (4 carry bytes i n bytes1)
  have "length bytes1 = length bytes"
    using 4(3) by simp
  moreover have "length bytes - Suc i < length bytes - i"
    using 4(1) by arith
  ultimately show ?case by simp
qed

declare decode_inner.simps [simp del]

text \<open>The outer loop over the characters; an unknown character throws.\<close>

fun decode_chars :: "int list \<Rightarrow> string \<Rightarrow> js_error + int list" where
  "decode_chars bytes [] = Inr bytes"
| "decode_chars bytes (char # rest) =
     (let carry = indexOf BASE58_ALPHABET [char]
      in if carry = - 1 then Inl (Error (''Invalid Base58 character: '' @ [char]))
         else decode_chars (decode_inner carry bytes 0) rest)"

text \<open>
  After the loop one zero byte is pushed for every leading \<open>1\<close>; \<open>Buffer.from\<close> keeps the
  low eight bits of every number.
\<close>

definition base58Decode :: "string \<Rightarrow> js_error + int list" where
  "base58Decode str =
     (case decode_chars [0] str of
        Inl e \<Rightarrow> Inl e
      | Inr bytes \<Rightarrow>
          Inr (map (\<lambda>b. b mod 256)
                 (rev (bytes @ replicate (length (takeWhile (\<lambda>char. char = CHR ''1'') str)) 0))))"

text \<open>
  The loops of \<open>base58Encode\<close> for one byte: first over the digits there are, then
  \<open>while (carry > 0)\<close>.
\<close>

fun encode_inner :: "int list \<Rightarrow> int \<Rightarrow> int list \<times> int" where
  "encode_inner [] carry = ([], carry)"
| "encode_inner (d # digits) carry =
     (let carry1 = carry + d * 256;
          (digits', carry') = encode_inner digits (carry1 div 58)
      in (carry1 mod 58 # digits', carry'))"

function encode_push :: "int list \<Rightarrow> int \<Rightarrow> int list" where
  "encode_push digits carry =
     (if carry > 0 then encode_push (digits @ [carry mod 58]) (carry div 58) else digits)"
  by pat_completeness auto
termination
  by (relation "measure (\<lambda>(digits, carry). nat carry)") auto

declare encode_push.simps [simp del]

definition encode_byte :: "int list \<Rightarrow> int \<Rightarrow> int list" where
  "encode_byte digits byte = (case encode_inner digits byte of (digits', carry) \<Rightarrow> encode_push digits' carry)"

definition base58Encode :: "int list \<Rightarrow> string" where
  "base58Encode buffer =
     (let digits = foldl encode_byte [0] buffer;
          digits1 = digits @ replicate (length (takeWhile (\<lambda>byte. byte = 0) buffer)) 0
      in map (\<lambda>d. BASE58_ALPHABET ! nat d) (rev digits1))"

section \<open>Classical ciphers\<close>

subsection \<open>Strings\<close>

text \<open>
  \<open>toUpperCase\<close> and \<open>toLowerCase\<close> on the 8-bit characters: the ASCII letters, the accented
  Latin-1 letters, and the sharp s, whose upper case is the two letters \<open>SS\<close>.  Two 8-bit
  characters have an upper case beyond U+00FF: the micro sign U+00B5 (upper case U+039C)
  and U+00FF (upper case U+0178).  A string of 8-bit characters cannot hold these upper
  cases; \<open>toUpperCase_char\<close> returns the two characters as they are, which stands for
  an upper case that is not a letter between A and Z: that is all the Beaufort and
  Vigenere loops ask of an upper case.  Where the upper case itself is part of a result, as in
  the alphabet of \<open>decryptVIC\<close>, the statements are made for the strings that satisfy
  \<open>upper_case_8bit\<close>, on which \<open>toUpperCase\<close> is exact.
\<close>

definition toUpperCase_char :: "char \<Rightarrow> string" where
  "toUpperCase_char c =
     (let n = of_char c :: nat
      in if 97 \<le> n \<and> n \<le> 122 then [char_of (n - 32)]
         else if n = 223 then ''SS''
         else if 224 \<le> n \<and> n \<le> 254 \<and> n \<noteq> 247 then [char_of (n - 32)]
         else [c])"

definition toUpperCase :: "string \<Rightarrow> string" where
  "toUpperCase s = concat (map toUpperCase_char s)"

definition upper_case_8bit :: "string \<Rightarrow> bool" where
  "upper_case_8bit s = list_all (\<lambda>c. (of_char c :: nat) \<noteq> 181 \<and> (of_char c :: nat) \<noteq> 255) s"

definition toLowerCase_char :: "char \<Rightarrow> char" where
  "toLowerCase_char c =
     (let n = of_char c :: nat
      in if 65 \<le> n \<and> n \<le> 90 then char_of (n + 32)
         else if 192 \<le> n \<and> n \<le> 222 \<and> n \<noteq> 215 then char_of (n + 32)
         else c)"

definition toLowerCase :: "string \<Rightarrow> string" where
  "toLowerCase s = map toLowerCase_char s"

definition is_upper_AZ :: "char \<Rightarrow> bool" where
  "is_upper_AZ c = (65 \<le> (of_char c :: nat) \<and> (of_char c :: nat) \<le> 90)"

definition alphabet :: string where
  "alphabet = ''ABCDEFGHIJKLMNOPQRSTUVWXYZ''"

definition key_error :: string where
  "key_error = ''Error: Key must contain at least one letter''"

subsection \<open>Beaufort and Vigenere\<close>

text \<open>
  The loops run over the characters of the text; \<open>keyIndex\<close> advances on letters only.
  Both indices are between 0 and 25, so the sums are not negative and \<open>%\<close> is \<open>mod\<close>.
  Nothing in the \<open>try\<close> block of \<open>decryptBeaufort\<close> can throw.
\<close>

fun beaufort_loop :: "string \<Rightarrow> nat \<Rightarrow> string \<Rightarrow> string" where
  "beaufort_loop normalizedKey keyIndex [] = []"
| "beaufort_loop normalizedKey keyIndex (char # rest) =
     (let upperChar = toUpperCase [char];
          charIndex = indexOf alphabet upperChar
      in if charIndex \<noteq> - 1 then
           (let keyChar = normalizedKey ! (keyIndex mod length normalizedKey);
                keyCharIndex = indexOf alphabet [keyChar];
                decryptedIndex = (keyCharIndex - charIndex + 26) mod 26
            in (if [char] = upperChar then alphabet ! nat decryptedIndex
                else toLowerCase_char (alphabet ! nat decryptedIndex))
               # beaufort_loop normalizedKey (keyIndex + 1) rest)
         else char # beaufort_loop normalizedKey keyIndex rest)"

definition decryptBeaufort :: "string \<Rightarrow> string \<Rightarrow> string" where
  "decryptBeaufort ciphertext key =
     (let normalizedKey = filter is_upper_AZ (toUpperCase key)
      in if length normalizedKey = 0 then key_error
         else beaufort_loop normalizedKey 0 ciphertext)"



definition is_ascii_letter :: "char \<Rightarrow> bool" where
  "is_ascii_letter c =
     ((65 \<le> (of_char c :: nat) \<and> (of_char c :: nat) \<le> 90) \<or>
      (97 \<le> (of_char c :: nat) \<and> (of_char c :: nat) \<le> 122))"

subsection \<open>Numbers as text\<close>

text \<open>
  \<open>String(n)\<close>, template literals and \<open>join\<close> print a number that holds an integer of
  magnitude up to \<open>2 ^ 53\<close> in plain decimal, with a minus sign when it is negative;
  \<open>String_of\<close> is that text.  A larger number is printed from its shortest digits, and
  from \<open>10 ^ 21\<close> on with an exponent, which \<open>String_of\<close> does not follow: the statements
  about printed numbers are made for numbers within the range.
\<close>

definition digit_char :: "int \<Rightarrow> char" where
  "digit_char d = char_of (48 + nat d)"

function dec_digits :: "int \<Rightarrow> string" where
  "dec_digits n = (if n < 10 then [digit_char n] else dec_digits (n div 10) @ [digit_char (n mod 10)])"
  by pat_completeness auto
termination
  by (relation "measure nat") auto

declare dec_digits.simps [simp del]

definition String_of :: "int \<Rightarrow> string" where
  "String_of n = (if n < 0 then CHR ''-'' # dec_digits (- n) else dec_digits n)"

subsection \<open>The straddling checkerboard\<close>

text \<open>The characters that the regular expression \<open>\s\<close> matches, among the 8-bit ones.\<close>

definition is_space :: "char \<Rightarrow> bool" where
  "is_space c = ((of_char c :: nat) \<in> {9, 10, 11, 12, 13, 32, 160})"

definition singleDigits :: "int \<Rightarrow> int \<Rightarrow> int list" where
  "singleDigits digitRow1 digitRow2 =
     filter (\<lambda>d. d \<noteq> digitRow1 \<and> d \<noteq> digitRow2) [0, 1, 2, 3, 4, 5, 6, 7, 8, 9]"

text \<open>
  Each of the three loops that fill \<open>charMap\<close> walks over a list of codes and gives the next
  unused symbol of the alphabet to a code as long as symbols are left.
\<close>

fun set_codes :: "string \<Rightarrow> string list \<Rightarrow> (string \<rightharpoonup> string) \<times> nat \<Rightarrow> (string \<rightharpoonup> string) \<times> nat" where
  "set_codes cleanAlphabet [] (charMap, alphabetIndex) = (charMap, alphabetIndex)"
| "set_codes cleanAlphabet (code # codes) (charMap, alphabetIndex) =
     (if alphabetIndex < length cleanAlphabet
      then set_codes cleanAlphabet codes
             (charMap(code \<mapsto> [cleanAlphabet ! alphabetIndex]), alphabetIndex + 1)
      else set_codes cleanAlphabet codes (charMap, alphabetIndex))"

definition build_charMap :: "string \<Rightarrow> int \<Rightarrow> int \<Rightarrow> (string \<rightharpoonup> string)" where
  "build_charMap cleanAlphabet digitRow1 digitRow2 =
     fst (set_codes cleanAlphabet (map (\<lambda>i. String_of digitRow2 @ String_of i) [0, 1, 2, 3, 4, 5, 6, 7, 8, 9])
       (set_codes cleanAlphabet (map (\<lambda>i. String_of digitRow1 @ String_of i) [0, 1, 2, 3, 4, 5, 6, 7, 8, 9])
         (set_codes cleanAlphabet (map String_of (singleDigits digitRow1 digitRow2))
           (Map.empty, 0))))"

text \<open>
  \<open>lookup\<close> is \<open>charMap.get(code)\<close> followed by \<open>if (char) result += char\<close>: a missing code
  and an empty symbol add nothing.
\<close>

definition lookup :: "(string \<rightharpoonup> string) \<Rightarrow> string \<Rightarrow> string" where
  "lookup charMap code = (case charMap code of None \<Rightarrow> [] | Some char \<Rightarrow> char)"

text \<open>The decoding loop; its argument is the rest of the input, \<open>digits.substring(i)\<close>.\<close>

fun vic_decode :: "(string \<rightharpoonup> string) \<Rightarrow> string \<Rightarrow> string \<Rightarrow> string \<Rightarrow> string" where
  "vic_decode charMap row1 row2 [] = []"
| "vic_decode charMap row1 row2 [singleDigit] =
     (if [singleDigit] = row1 \<or> [singleDigit] = row2 then []
      else lookup charMap [singleDigit])"
| "vic_decode charMap row1 row2 (singleDigit # next # rest) =
     (if [singleDigit] = row1 \<or> [singleDigit] = row2
      then lookup charMap [singleDigit, next] @ vic_decode charMap row1 row2 rest
      else lookup charMap [singleDigit] @ vic_decode charMap row1 row2 (next # rest))"

definition decryptVIC :: "string \<Rightarrow> string \<Rightarrow> int \<Rightarrow> int \<Rightarrow> string" where
  "decryptVIC numbers alphabet' digitRow1 digitRow2 =
     (let digits = filter (\<lambda>c. \<not> is_space c) numbers;
          cleanAlphabet = toUpperCase alphabet';
          charMap = build_charMap cleanAlphabet digitRow1 digitRow2;
          result = vic_decode charMap (String_of digitRow1) (String_of digitRow2) digits
      in if result = [] then ''Unable to decode. Check alphabet and digit assignments.''
         else result)"

subsection \<open>Reading a matrix in a spiral\<close>

text \<open>
  \<open>matrix[i][j]\<close>: the rows that the loop reads always exist; a column beyond the end of a
  shorter row reads \<open>undefined\<close>, here \<open>None\<close>.
\<close>

definition cell :: "int list list \<Rightarrow> int \<Rightarrow> int \<Rightarrow> int option" where
  "cell matrix i j =
     (if 0 \<le> i \<and> i < int (length matrix) \<and> 0 \<le> j \<and> j < int (length (matrix ! nat i))
      then Some (matrix ! nat i ! nat j) else None)"

function spiral_loop ::
  "int list list \<Rightarrow> bool \<Rightarrow> int \<Rightarrow> int \<Rightarrow> int \<Rightarrow> int \<Rightarrow> int option list \<Rightarrow> int option list" where
  "spiral_loop matrix counterClockwise top' bottom left right result =
     (if top' \<le> bottom \<and> left \<le> right then
        (if counterClockwise then
           (let result1 = result @ map (\<lambda>i. cell matrix i left) [top'..bottom];
                left1 = left + 1;
                result2 = result1 @ map (\<lambda>i. cell matrix bottom i) [left1..right];
                bottom1 = bottom - 1;
                result3 = (if left1 \<le> right
                           then result2 @ map (\<lambda>i. cell matrix i right) (rev [top'..bottom1])
                           else result2);
                right1 = (if left1 \<le> right then right - 1 else right);
                result4 = (if top' \<le> bottom1
                           then result3 @ map (\<lambda>i. cell matrix top' i) (rev [left1..right1])
                           else result3);
                top1 = (if top' \<le> bottom1 then top' + 1 else top')
            in spiral_loop matrix counterClockwise top1 bottom1 left1 right1 result4)
         else
           (let result1 = result @ map (\<lambda>i. cell matrix top' i) [left..right];
                top1 = top' + 1;
                result2 = result1 @ map (\<lambda>i. cell matrix i right) [top1..bottom];
                right1 = right - 1;
                result3 = (if top1 \<le> bottom
                           then result2 @ map (\<lambda>i. cell matrix bottom i) (rev [left..right1])
                           else result2);
                bottom1 = (if top1 \<le> bottom then bottom - 1 else bottom);
                result4 = (if left \<le> right1
                           then result3 @ map (\<lambda>i. cell matrix i left) (rev [top1..bottom1])
                           else result3);
                left1 = (if left \<le> right1 then left + 1 else left)
            in spiral_loop matrix counterClockwise top1 bottom1 left1 right1 result4))
      else result)"
  by pat_completeness auto
termination
  by (relation "measure (\<lambda>(matrix, ccw, top', bottom, left, right, result).
        nat (bottom - top' + 1) + nat (right - left + 1))") auto

declare spiral_loop.simps [simp del]

text \<open>
  \<open>result.join("")\<close> prints every number and prints \<open>undefined\<close> as nothing.  A cell is a
  JavaScript number; the model covers the cells that hold an integer and prints them
  with \<open>String_of\<close>, which is the text of the number for the integers up to \<open>2 ^ 53\<close> in
  magnitude.  The statements about the returned string are made for cells within that
  range (single digits, and the cell 10).
\<close>

definition join_cells :: "int option list \<Rightarrow> string" where
  "join_cells result = concat (map (\<lambda>c. case c of None \<Rightarrow> [] | Some n \<Rightarrow> String_of n) result)"

definition spiral_cells :: "int list list \<Rightarrow> bool \<Rightarrow> int option list" where
  "spiral_cells matrix counterClockwise =
     (let rows = int (length matrix);
          cols = int (length (matrix ! 0))
      in spiral_loop matrix counterClockwise 0 (rows - 1) 0 (cols - 1) [])"

definition readSpiralMatrix :: "int list list \<Rightarrow> bool \<Rightarrow> string" where
  "readSpiralMatrix matrix counterClockwise =
     (if length matrix = 0 then [] else join_cells (spiral_cells matrix counterClockwise))"

text \<open>The cells of a bounding box, row by row; the loop peels its sides off.\<close>

definition box_cells :: "int list list \<Rightarrow> int \<Rightarrow> int \<Rightarrow> int \<Rightarrow> int \<Rightarrow> int option list" where
  "box_cells matrix top' bottom left right =
     concat (map (\<lambda>i. map (\<lambda>j. cell matrix i j) [left..right]) [top'..bottom])"

unbundle bit_operations_syntax

section \<open>The hash functions of the crypto library\<close>

text \<open>
  Node's \<open>crypto.createHash\<close> is library code.  The three digests the sources call are
  modelled by their published algorithms (FIPS 180-4 for SHA-256, the RIPEMD-160
  reference description, RFC 1321 for MD5).  A 32-bit word is an \<^typ>\<open>int\<close> kept below
  \<open>2 ^ 32\<close> by masking.
\<close>

definition add32 :: "int \<Rightarrow> int \<Rightarrow> int" where
  "add32 a b = (a + b) AND 0xFFFFFFFF"

definition not32 :: "int \<Rightarrow> int" where
  "not32 x = x XOR 0xFFFFFFFF"

definition rotr32 :: "nat \<Rightarrow> int \<Rightarrow> int" where
  "rotr32 n x = drop_bit n x OR (push_bit (32 - n) x AND 0xFFFFFFFF)"

definition rotl32 :: "nat \<Rightarrow> int \<Rightarrow> int" where
  "rotl32 n x = (push_bit n x AND 0xFFFFFFFF) OR drop_bit (32 - n) x"

fun chunks :: "nat \<Rightarrow> 'a list \<Rightarrow> 'a list list" where
  "chunks n [] = []"
| "chunks n (x # xs) = (if n = 0 then [x # xs] else take n (x # xs) # chunks n (drop n (x # xs)))"

fun be32 :: "int list \<Rightarrow> int list" where
  "be32 (a # b # c # d # r) = (push_bit 24 a OR push_bit 16 b OR push_bit 8 c OR d) # be32 r"
| "be32 r = []"

fun le32 :: "int list \<Rightarrow> int list" where
  "le32 (a # b # c # d # r) = (push_bit 24 d OR push_bit 16 c OR push_bit 8 b OR a) # le32 r"
| "le32 r = []"

definition bytes_be32 :: "int \<Rightarrow> int list" where
  "bytes_be32 w = [drop_bit 24 w AND 255, drop_bit 16 w AND 255, drop_bit 8 w AND 255, w AND 255]"

definition bytes_le32 :: "int \<Rightarrow> int list" where
  "bytes_le32 w = [w AND 255, drop_bit 8 w AND 255, drop_bit 16 w AND 255, drop_bit 24 w AND 255]"

definition bytes_le64 :: "int \<Rightarrow> int list" where
  "bytes_le64 w = bytes_le32 (w AND 0xFFFFFFFF) @ bytes_le32 (drop_bit 32 w AND 0xFFFFFFFF)"

definition bytes_be64 :: "int \<Rightarrow> int list" where
  "bytes_be64 w = bytes_be32 (drop_bit 32 w AND 0xFFFFFFFF) @ bytes_be32 (w AND 0xFFFFFFFF)"

definition md_pad :: "(int \<Rightarrow> int list) \<Rightarrow> int list \<Rightarrow> int list" where
  "md_pad len_bytes m =
     m @ [0x80] @ replicate ((119 - length m mod 64) mod 64) 0 @ len_bytes (8 * int (length m))"

subsection \<open>SHA-256\<close>

definition Ch :: "int \<Rightarrow> int \<Rightarrow> int \<Rightarrow> int" where
  "Ch x y z = (x AND y) XOR (not32 x AND z)"

definition Maj :: "int \<Rightarrow> int \<Rightarrow> int \<Rightarrow> int" where
  "Maj x y z = (x AND y) XOR (x AND z) XOR (y AND z)"

definition bsig0 :: "int \<Rightarrow> int" where
  "bsig0 x = rotr32 2 x XOR rotr32 13 x XOR rotr32 22 x"

definition bsig1 :: "int \<Rightarrow> int" where
  "bsig1 x = rotr32 6 x XOR rotr32 11 x XOR rotr32 25 x"

definition ssig0 :: "int \<Rightarrow> int" where
  "ssig0 x = rotr32 7 x XOR rotr32 18 x XOR drop_bit 3 x"

definition ssig1 :: "int \<Rightarrow> int" where
  "ssig1 x = rotr32 17 x XOR rotr32 19 x XOR drop_bit 10 x"

definition K256 :: "int list" where
  "K256 = [
    1116352408, 1899447441, 3049323471, 3921009573, 961987163, 1508970993,
    2453635748, 2870763221, 3624381080, 310598401, 607225278, 1426881987,
    1925078388, 2162078206, 2614888103, 3248222580, 3835390401, 4022224774,
    264347078, 604807628, 770255983, 1249150122, 1555081692, 1996064986,
    2554220882, 2821834349, 2952996808, 3210313671, 3336571891, 3584528711,
    113926993, 338241895, 666307205, 773529912, 1294757372, 1396182291,
    1695183700, 1986661051, 2177026350, 2456956037, 2730485921, 2820302411,
    3259730800, 3345764771, 3516065817, 3600352804, 4094571909, 275423344,
    430227734, 506948616, 659060556, 883997877, 958139571, 1322822218,
    1537002063, 1747873779, 1955562222, 2024104815, 2227730452, 2361852424,
    2428436474, 2756734187, 3204031479, 3329325298]"

definition H256 :: "int list" where
  "H256 = [
    1779033703, 3144134277, 1013904242, 2773480762, 1359893119, 2600822924,
    528734635, 1541459225]"

definition sha256_step :: "int \<Rightarrow> int \<Rightarrow> int list \<Rightarrow> int list" where
  "sha256_step k w s =
     (let T1 = add32 (add32 (add32 (add32 (s ! 7) (bsig1 (s ! 4))) (Ch (s ! 4) (s ! 5) (s ! 6))) k) w;
          T2 = add32 (bsig0 (s ! 0)) (Maj (s ! 0) (s ! 1) (s ! 2))
      in [add32 T1 T2, s ! 0, s ! 1, s ! 2, add32 (s ! 3) T1, s ! 4, s ! 5, s ! 6])"

definition sha256_next_w :: "int list \<Rightarrow> int list" where
  "sha256_next_w w =
     tl w @ [add32 (add32 (add32 (ssig1 (w ! 14)) (w ! 9)) (ssig0 (w ! 1))) (w ! 0)]"

fun sha256_rounds :: "int list \<Rightarrow> int list \<Rightarrow> int list \<Rightarrow> int list" where
  "sha256_rounds [] w s = s"
| "sha256_rounds (k # ks) w s = sha256_rounds ks (sha256_next_w w) (sha256_step k (w ! 0) s)"

definition sha256_block :: "int list \<Rightarrow> int list \<Rightarrow> int list" where
  "sha256_block h block = map2 add32 h (sha256_rounds K256 (be32 block) h)"

definition sha256 :: "int list \<Rightarrow> int list" where
  "sha256 m = concat (map bytes_be32 (foldl sha256_block H256 (chunks 64 (md_pad bytes_be64 m))))"

subsection \<open>RIPEMD-160\<close>

definition rmd_f :: "nat \<Rightarrow> int \<Rightarrow> int \<Rightarrow> int \<Rightarrow> int" where
  "rmd_f j x y z =
     (if j < 16 then x XOR y XOR z
      else if j < 32 then (x AND y) OR (not32 x AND z)
      else if j < 48 then (x OR not32 y) XOR z
      else if j < 64 then (x AND z) OR (y AND not32 z)
      else x XOR (y OR not32 z))"

definition rmd_KL :: "nat \<Rightarrow> int" where
  "rmd_KL j = (if j < 16 then 0 else if j < 32 then 1518500249 else if j < 48 then 1859775393
               else if j < 64 then 2400959708 else 2840853838)"

definition rmd_KR :: "nat \<Rightarrow> int" where
  "rmd_KR j = (if j < 16 then 1352829926 else if j < 32 then 1548603684 else if j < 48 then 1836072691
               else if j < 64 then 2053994217 else 0)"

definition rmd_RL :: "nat list" where
  "rmd_RL = concat
    [[0, 1, 2, 3, 4, 5, 6, 7, 8, 9, 10, 11, 12, 13, 14, 15],
     [7, 4, 13, 1, 10, 6, 15, 3, 12, 0, 9, 5, 2, 14, 11, 8],
     [3, 10, 14, 4, 9, 15, 8, 1, 2, 7, 0, 6, 13, 11, 5, 12],
     [1, 9, 11, 10, 0, 8, 12, 4, 13, 3, 7, 15, 14, 5, 6, 2],
     [4, 0, 5, 9, 7, 12, 2, 10, 14, 1, 3, 8, 11, 6, 15, 13]]"

definition rmd_RR :: "nat list" where
  "rmd_RR = concat
    [[5, 14, 7, 0, 9, 2, 11, 4, 13, 6, 15, 8, 1, 10, 3, 12],
     [6, 11, 3, 7, 0, 13, 5, 10, 14, 15, 8, 12, 4, 9, 1, 2],
     [15, 5, 1, 3, 7, 14, 6, 9, 11, 8, 12, 2, 10, 0, 4, 13],
     [8, 6, 4, 1, 3, 11, 15, 0, 5, 12, 2, 13, 9, 7, 10, 14],
     [12, 15, 10, 4, 1, 5, 8, 7, 6, 2, 13, 14, 0, 3, 9, 11]]"

definition rmd_SL :: "nat list" where
  "rmd_SL = concat
    [[11, 14, 15, 12, 5, 8, 7, 9, 11, 13, 14, 15, 6, 7, 9, 8],
     [7, 6, 8, 13, 11, 9, 7, 15, 7, 12, 15, 9, 11, 7, 13, 12],
     [11, 13, 6, 7, 14, 9, 13, 15, 14, 8, 13, 6, 5, 12, 7, 5],
     [11, 12, 14, 15, 14, 15, 9, 8, 9, 14, 5, 6, 8, 6, 5, 12],
     [9, 15, 5, 11, 6, 8, 13, 12, 5, 12, 13, 14, 11, 8, 5, 6]]"

definition rmd_SR :: "nat list" where
  "rmd_SR = concat
    [[8, 9, 9, 11, 13, 15, 15, 5, 7, 7, 8, 11, 14, 14, 12, 6],
     [9, 13, 15, 7, 12, 8, 9, 11, 7, 7, 12, 7, 6, 15, 13, 11],
     [9, 7, 15, 11, 8, 6, 6, 14, 12, 13, 5, 14, 13, 13, 7, 5],
     [15, 5, 8, 11, 14, 14, 6, 14, 6, 9, 12, 9, 12, 5, 15, 8],
     [8, 5, 12, 9, 12, 5, 14, 6, 8, 13, 6, 5, 15, 13, 11, 11]]"

definition rmd_step :: "int \<Rightarrow> int \<Rightarrow> nat \<Rightarrow> int \<Rightarrow> int list \<Rightarrow> int list" where
  "rmd_step fv k s x v =
     [v ! 4, add32 (rotl32 s (add32 (add32 (add32 (v ! 0) fv) x) k)) (v ! 4), v ! 1,
      rotl32 10 (v ! 2), v ! 3]"

fun rmd_line :: "(nat \<Rightarrow> nat) \<Rightarrow> (nat \<Rightarrow> int) \<Rightarrow> int list \<Rightarrow> nat \<Rightarrow> nat list \<Rightarrow> nat list \<Rightarrow> int list
    \<Rightarrow> int list" where
  "rmd_line fj kj X j (r # rs) (s # ss) v =
     rmd_line fj kj X (Suc j) rs ss
       (rmd_step (rmd_f (fj j) (v ! 1) (v ! 2) (v ! 3)) (kj j) s (X ! r) v)"
| "rmd_line fj kj X j rs ss v = v"

definition rmd_block :: "int list \<Rightarrow> int list \<Rightarrow> int list" where
  "rmd_block h block =
     (let X = le32 block;
          l = rmd_line (\<lambda>j. j) rmd_KL X 0 rmd_RL rmd_SL h;
          r = rmd_line (\<lambda>j. 79 - j) rmd_KR X 0 rmd_RR rmd_SR h
      in [add32 (add32 (h ! 1) (l ! 2)) (r ! 3),
          add32 (add32 (h ! 2) (l ! 3)) (r ! 4),
          add32 (add32 (h ! 3) (l ! 4)) (r ! 0),
          add32 (add32 (h ! 4) (l ! 0)) (r ! 1),
          add32 (add32 (h ! 0) (l ! 1)) (r ! 2)])"

definition H160 :: "int list" where
  "H160 = [
    1732584193, 4023233417, 2562383102, 271733878, 3285377520]"

definition ripemd160_digest :: "int list \<Rightarrow> int list" where
  "ripemd160_digest m =
     concat (map bytes_le32 (foldl rmd_block H160 (chunks 64 (md_pad bytes_le64 m))))"

subsection \<open>MD5\<close>

definition md5_K :: "int list" where
  "md5_K = [
    0xd76aa478, 0xe8c7b756, 0x242070db, 0xc1bdceee, 0xf57c0faf, 0x4787c62a, 0xa8304613, 0xfd469501,
    0x698098d8, 0x8b44f7af, 0xffff5bb1, 0x895cd7be, 0x6b901122, 0xfd987193, 0xa679438e, 0x49b40821,
    0xf61e2562, 0xc040b340, 0x265e5a51, 0xe9b6c7aa, 0xd62f105d, 0x02441453, 0xd8a1e681, 0xe7d3fbc8,
    0x21e1cde6, 0xc33707d6, 0xf4d50d87, 0x455a14ed, 0xa9e3e905, 0xfcefa3f8, 0x676f02d9, 0x8d2a4c8a,
    0xfffa3942, 0x8771f681, 0x6d9d6122, 0xfde5380c, 0xa4beea44, 0x4bdecfa9, 0xf6bb4b60, 0xbebfbc70,
    0x289b7ec6, 0xeaa127fa, 0xd4ef3085, 0x04881d05, 0xd9d4d039, 0xe6db99e5, 0x1fa27cf8, 0xc4ac5665,
    0xf4292244, 0x432aff97, 0xab9423a7, 0xfc93a039, 0x655b59c3, 0x8f0ccc92, 0xffeff47d, 0x85845dd1,
    0x6fa87e4f, 0xfe2ce6e0, 0xa3014314, 0x4e0811a1, 0xf7537e82, 0xbd3af235, 0x2ad7d2bb, 0xeb86d391]"

definition md5_S :: "nat list" where
  "md5_S = [7, 12, 17, 22, 7, 12, 17, 22, 7, 12, 17, 22, 7, 12, 17, 22,
            5, 9, 14, 20, 5, 9, 14, 20, 5, 9, 14, 20, 5, 9, 14, 20,
            4, 11, 16, 23, 4, 11, 16, 23, 4, 11, 16, 23, 4, 11, 16, 23,
            6, 10, 15, 21, 6, 10, 15, 21, 6, 10, 15, 21, 6, 10, 15, 21]"

definition md5_F :: "nat \<Rightarrow> int \<Rightarrow> int \<Rightarrow> int \<Rightarrow> int" where
  "md5_F i b c d =
     (if i < 16 then (b AND c) OR (not32 b AND d)
      else if i < 32 then (d AND b) OR (not32 d AND c)
      else if i < 48 then b XOR c XOR d
      else c XOR (b OR not32 d))"

definition md5_g :: "nat \<Rightarrow> nat" where
  "md5_g i =
     (if i < 16 then i
      else if i < 32 then (5 * i + 1) mod 16
      else if i < 48 then (3 * i + 5) mod 16
      else (7 * i) mod 16)"

fun md5_rounds :: "int list \<Rightarrow> nat \<Rightarrow> int list \<Rightarrow> nat list \<Rightarrow> int list \<Rightarrow> int list" where
  "md5_rounds M i (k # ks) (s # ss) v =
     md5_rounds M (Suc i) ks ss
       [v ! 3,
        add32 (v ! 1)
          (rotl32 s (add32 (add32 (add32 (md5_F i (v ! 1) (v ! 2) (v ! 3)) (v ! 0)) k) (M ! md5_g i))),
        v ! 1, v ! 2]"
| "md5_rounds M i ks ss v = v"

definition md5_block :: "int list \<Rightarrow> int list \<Rightarrow> int list" where
  "md5_block h block = map2 add32 h (md5_rounds (le32 block) 0 md5_K md5_S h)"

definition md5_H :: "int list" where
  "md5_H = [
    1732584193, 4023233417, 2562383102, 271733878]"

definition md5 :: "int list \<Rightarrow> int list" where
  "md5 m = concat (map bytes_le32 (foldl md5_block md5_H (chunks 64 (md_pad bytes_le64 m))))"

section \<open>Keys, addresses and WIF\<close>

subsection \<open>The secp256k1 curve of \<open>crypto.createECDH\<close>\<close>

text \<open>
  \<open>ecdh.setPrivateKey\<close> followed by \<open>ecdh.getPublicKey()\<close> is library code: the public key
  is the multiple of the generator by the private scalar, in the uncompressed form
  04, X, Y.  A scalar that is zero or not below the group order is refused.
\<close>

definition secp256k1_p :: int where
  "secp256k1_p = 0xFFFFFFFFFFFFFFFFFFFFFFFFFFFFFFFFFFFFFFFFFFFFFFFFFFFFFFFEFFFFFC2F"

definition secp256k1_n :: int where
  "secp256k1_n = 0xFFFFFFFFFFFFFFFFFFFFFFFFFFFFFFFEBAAEDCE6AF48A03BBFD25E8CD0364141"

definition secp256k1_Gx :: int where
  "secp256k1_Gx = 0x79BE667EF9DCBBAC55A06295CE870B07029BFCDB2DCE28D959F2815B16F81798"

definition secp256k1_Gy :: int where
  "secp256k1_Gy = 0x483ADA7726A3C4655DA4FBFC0E1108A8FD17B448A68554199C47D08FFB10D4B8"

datatype point = Infinity | Point int int

function pow_mod :: "int \<Rightarrow> int \<Rightarrow> int \<Rightarrow> int" where
  "pow_mod b e m =
     (if e \<le> 0 then 1 mod m
      else if even e then pow_mod (b * b mod m) (e div 2) m
      else b * pow_mod (b * b mod m) (e div 2) m mod m)"
  by pat_completeness auto
termination
  by (relation "measure (\<lambda>(b, e, m). nat e)") auto

declare pow_mod.simps [simp del]

definition inv_p :: "int \<Rightarrow> int" where
  "inv_p a = pow_mod (a mod secp256k1_p) (secp256k1_p - 2) secp256k1_p"

fun ec_double :: "point \<Rightarrow> point" where
  "ec_double Infinity = Infinity"
| "ec_double (Point x y) =
     (if y = 0 then Infinity
      else let l = 3 * x * x * inv_p (2 * y) mod secp256k1_p;
               x3 = (l * l - 2 * x) mod secp256k1_p
           in Point x3 ((l * (x - x3) - y) mod secp256k1_p))"

fun ec_add :: "point \<Rightarrow> point \<Rightarrow> point" where
  "ec_add Infinity q = q"
| "ec_add p Infinity = p"
| "ec_add (Point x1 y1) (Point x2 y2) =
     (if x1 = x2 then (if y1 = y2 then ec_double (Point x1 y1) else Infinity)
      else let l = (y2 - y1) * inv_p (x2 - x1) mod secp256k1_p;
               x3 = (l * l - x1 - x2) mod secp256k1_p
           in Point x3 ((l * (x1 - x3) - y1) mod secp256k1_p))"

function ec_mul :: "int \<Rightarrow> point \<Rightarrow> point" where
  "ec_mul k p =
     (if k \<le> 0 then Infinity
      else if k = 1 then p
      else if even k then ec_mul (k div 2) (ec_double p)
      else ec_add p (ec_mul (k div 2) (ec_double p)))"
  by pat_completeness auto
termination
  by (relation "measure (\<lambda>(k, p). nat k)") auto

declare ec_mul.simps [simp del]

definition from_be :: "int list \<Rightarrow> int" where
  "from_be bytes = foldl (\<lambda>acc b. acc * 256 + b) 0 bytes"

fun to_be :: "nat \<Rightarrow> int \<Rightarrow> int list" where
  "to_be 0 v = []"
| "to_be (Suc n) v = to_be n (v div 256) @ [v mod 256]"

definition ecdh_getPublicKey :: "int list \<Rightarrow> js_error + int list" where
  "ecdh_getPublicKey privateKey =
     (let d = from_be privateKey
      in if d = 0 \<or> secp256k1_n \<le> d
         then Inl (Error ''Private key is not valid for specified curve.'')
         else (case ec_mul d (Point secp256k1_Gx secp256k1_Gy) of
                 Infinity \<Rightarrow> Inl (Error ''Failed to get ECDH public key'')
               | Point x y \<Rightarrow> Inr (4 # to_be 32 x @ to_be 32 y)))"

subsection \<open>Hexadecimal\<close>

text \<open>
  \<open>Buffer.from(s, "hex")\<close> reads pairs of hexadecimal digits and stops at the first pair
  that is not one; \<open>toString("hex")\<close> writes lower-case digits.
\<close>

definition hex_digits :: string where
  "hex_digits = ''0123456789abcdef''"

definition hex_value :: "char \<Rightarrow> int" where
  "hex_value c =
     (let n = of_char c :: nat
      in if 48 \<le> n \<and> n \<le> 57 then int n - 48
         else if 97 \<le> n \<and> n \<le> 102 then int n - 87
         else if 65 \<le> n \<and> n \<le> 70 then int n - 55
         else - 1)"

fun hex_decode :: "string \<Rightarrow> int list" where
  "hex_decode (a # b # rest) =
     (if hex_value a = - 1 \<or> hex_value b = - 1 then []
      else (hex_value a * 16 + hex_value b) # hex_decode rest)"
| "hex_decode rest = []"

definition hex_encode :: "int list \<Rightarrow> string" where
  "hex_encode bytes = concat (map (\<lambda>b. [hex_digits ! nat (b div 16), hex_digits ! nat (b mod 16)]) bytes)"

subsection \<open>Addresses and WIF\<close>

definition doubleSha256 :: "int list \<Rightarrow> int list" where
  "doubleSha256 buffer = sha256 (sha256 buffer)"

definition ripemd160 :: "int list \<Rightarrow> int list" where
  "ripemd160 buffer = ripemd160_digest buffer"

definition hash160 :: "int list \<Rightarrow> int list" where
  "hash160 buffer = ripemd160 (sha256 buffer)"

definition privateKeyToAddress :: "string \<Rightarrow> bool \<Rightarrow> js_error + string" where
  "privateKeyToAddress privateKeyHex compressed =
     (if length privateKeyHex \<noteq> 64
      then Inl (Error ''Private key must be 64 hex characters (32 bytes)'')
      else
        (case ecdh_getPublicKey (hex_decode privateKeyHex) of
           Inl e \<Rightarrow> Inl e
         | Inr fullPublicKey \<Rightarrow>
             (let publicKey =
                    (if compressed
                     then (let x = take 32 (drop 1 fullPublicKey);
                               y = take 32 (drop 33 fullPublicKey);
                               prefix = (if (y ! 31) mod 2 = 0 then 2 else 3)
                           in prefix # x)
                     else fullPublicKey);
                  publicKeyHash = hash160 publicKey;
                  versionedHash = 0 # publicKeyHash;
                  checksum = take 4 (doubleSha256 versionedHash);
                  addressBytes = versionedHash @ checksum
              in Inr (base58Encode addressBytes))))"

definition privateKeyToWIF :: "string \<Rightarrow> bool \<Rightarrow> bool \<Rightarrow> string" where
  "privateKeyToWIF privateKeyHex compressed mainnet =
     (let privateKeyBuffer = hex_decode privateKeyHex;
          version = (if mainnet then 0x80 else 0xef);
          extendedKey = (if compressed then [version] @ privateKeyBuffer @ [1]
                         else [version] @ privateKeyBuffer);
          checksum = take 4 (doubleSha256 extendedKey)
      in base58Encode (extendedKey @ checksum))"

record wif_result =
  privateKey :: string
  compressed :: bool
  mainnet :: bool

definition wifToPrivateKey :: "string \<Rightarrow> js_error + wif_result" where
  "wifToPrivateKey wif =
     (case base58Decode wif of
        Inl e \<Rightarrow> Inl e
      | Inr decoded \<Rightarrow>
          (let payload = take (length decoded - 4) decoded;
               checksum = drop (length decoded - 4) decoded;
               calculatedChecksum = take 4 (doubleSha256 payload)
           in if checksum \<noteq> calculatedChecksum then Inl (Error ''Invalid WIF checksum'')
              else
                (let mainnet = (payload \<noteq> [] \<and> payload ! 0 = 0x80)
                 in if length payload = 34 \<and> payload ! 33 = 1
                    then Inr \<lparr>privateKey = hex_encode (take 32 (drop 1 payload)),
                              compressed = True, mainnet = mainnet\<rparr>
                    else if length payload = 33
                    then Inr \<lparr>privateKey = hex_encode (take 32 (drop 1 payload)),
                              compressed = False, mainnet = mainnet\<rparr>
                    else Inl (Error ''Invalid WIF format''))))"

subsection \<open>MD5 digests have 16 bytes\<close>

lemma md5_rounds_length: "length v = 4 \<Longrightarrow> length (md5_rounds M i ks ss v) = 4"
  by (induction M i ks ss v rule: md5_rounds.induct) simp_all

lemma md5_block_length: "length h = 4 \<Longrightarrow> length (md5_block h block) = 4"
  by (simp add: md5_block_def md5_rounds_length)

lemma md5_state_length: "length h = 4 \<Longrightarrow> length (foldl md5_block h blocks) = 4"
  by (induction blocks arbitrary: h) (simp_all add: md5_block_length)

lemma concat_bytes_le32_length: "length (concat (map bytes_le32 ws)) = 4 * length ws"
  by (induction ws) (simp_all add: bytes_le32_def)

lemma md5_length: "length (md5 m) = 16"
proof -
  have "length (foldl md5_block md5_H (chunks 64 (md_pad bytes_le64 m))) = 4"
    by (rule md5_state_length) (simp add: md5_H_def)
  then show ?thesis
    by (simp add: md5_def concat_bytes_le32_length)
qed

subsection \<open>AES-256-CBC decryption in the OpenSSL format\<close>

text \<open>
  The Base64 decoder of \<open>Buffer.from\<close>, the UTF-8 decoder of \<open>toString\<close> and the AES
  decipher (\<open>createDecipheriv\<close>, \<open>update\<close>, \<open>final\<close>) are library functions; they are
  parameters of the model.  The decipher either throws or returns the plaintext bytes.
\<close>

record node_library =
  from_base64 :: "string \<Rightarrow> int list"
  utf8_string :: "int list \<Rightarrow> string"
  aes_256_cbc_decipher :: "int list \<Rightarrow> int list \<Rightarrow> int list \<Rightarrow> js_error + int list"

text \<open>The UTF-8 bytes of a string of 8-bit characters, as \<open>update(password)\<close> hashes them.\<close>

definition utf8_bytes :: "string \<Rightarrow> int list" where
  "utf8_bytes s =
     concat (map (\<lambda>c. let n = int (of_char c :: nat)
                       in if n < 128 then [n] else [192 + n div 64, 128 + n mod 64]) s)"

definition is_hex_digit :: "char \<Rightarrow> bool" where
  "is_hex_digit c = (hex_value c \<noteq> - 1)"

function evp_loop ::
  "int list \<Rightarrow> int list \<Rightarrow> nat \<Rightarrow> int list list \<Rightarrow> int list \<Rightarrow> nat \<Rightarrow> int list list" where
  "evp_loop password salt need md5Hashes digest totalLen =
     (if totalLen < need
      then (let data = digest @ password @ salt;
                digest1 = md5 data
            in evp_loop password salt need (md5Hashes @ [digest1]) digest1 (totalLen + length digest1))
      else md5Hashes)"
  by pat_completeness auto
termination
  by (relation "measure (\<lambda>(password, salt, need, md5Hashes, digest, totalLen). need - totalLen)")
    (simp_all add: md5_length)

declare evp_loop.simps [simp del]

definition evpBytesToKey :: "int list \<Rightarrow> int list \<Rightarrow> nat \<Rightarrow> nat \<Rightarrow> int list \<times> int list" where
  "evpBytesToKey password salt keyLen ivLen =
     (let combined = concat (evp_loop password salt (keyLen + ivLen) [] [] 0)
      in (take keyLen combined, take ivLen (drop keyLen combined)))"

text \<open>The body of the \<open>try\<close> block: it returns the plaintext or the exception it raised.\<close>

definition decrypt_attempt :: "node_library \<Rightarrow> string \<Rightarrow> string \<Rightarrow> js_error + string" where
  "decrypt_attempt lib encrypted password =
     (let keyMaterial = (if length password = 64 \<and> list_all is_hex_digit password
                         then hex_decode password
                         else sha256 (utf8_bytes password));
          encryptedBuffer = from_base64 lib encrypted;
          saltedHeader = utf8_string lib (take 8 encryptedBuffer);
          salt = (if saltedHeader = ''Salted__'' then take 8 (drop 8 encryptedBuffer)
                  else replicate 8 0);
          ciphertext = (if saltedHeader = ''Salted__'' then drop 16 encryptedBuffer
                        else encryptedBuffer);
          (key, iv) = evpBytesToKey keyMaterial salt 32 16
      in case aes_256_cbc_decipher lib key iv ciphertext of
           Inl e \<Rightarrow> Inl e
         | Inr decrypted \<Rightarrow> Inr (utf8_string lib decrypted))"

text \<open>\<open>error instanceof Error ? error.message : "Unknown error"\<close>\<close>

definition error_message :: "js_error \<Rightarrow> string" where
  "error_message e = (case e of Error message \<Rightarrow> message | NonError \<Rightarrow> ''Unknown error'')"

definition decryptAES256CBC :: "node_library \<Rightarrow> string \<Rightarrow> string \<Rightarrow> js_error + string" where
  "decryptAES256CBC lib encrypted password =
     (case decrypt_attempt lib encrypted password of
        Inr plaintext \<Rightarrow> Inr plaintext
      | Inl e \<Rightarrow> Inr (''AES-256-CBC Decryption Error: '' @ error_message e))"

subsection \<open>Parsing a private key\<close>

datatype key_format = Hex | Wif | Decimal | Binary | Unknown

record parsed_key =
  privateKeyHex :: string
  format :: key_format
  error :: "string option"

text \<open>\<open>trim\<close> removes white space and line ends from both ends.\<close>

definition trim :: "string \<Rightarrow> string" where
  "trim s = rev (dropWhile is_space (rev (dropWhile is_space s)))"

definition is_decimal_digit :: "char \<Rightarrow> bool" where
  "is_decimal_digit c = (48 \<le> (of_char c :: nat) \<and> (of_char c :: nat) \<le> 57)"

definition is_binary_digit :: "char \<Rightarrow> bool" where
  "is_binary_digit c = (c = CHR ''0'' \<or> c = CHR ''1'')"

text \<open>The character class \<open>[1-9A-HJ-NP-Za-km-z]\<close>.\<close>

definition is_wif_char :: "char \<Rightarrow> bool" where
  "is_wif_char c =
     (let n = of_char c :: nat
      in (49 \<le> n \<and> n \<le> 57) \<or> (65 \<le> n \<and> n \<le> 72) \<or> (74 \<le> n \<and> n \<le> 78) \<or>
         (80 \<le> n \<and> n \<le> 90) \<or> (97 \<le> n \<and> n \<le> 107) \<or> (109 \<le> n \<and> n \<le> 122))"

text \<open>\<open>/^[a-fA-F0-9]{64}$/\<close>\<close>

definition matches_hex64 :: "string \<Rightarrow> bool" where
  "matches_hex64 s = (length s = 64 \<and> list_all is_hex_digit s)"

text \<open>\<open>/^[5KL][1-9A-HJ-NP-Za-km-z]{50,51}$/\<close>\<close>

definition matches_wif :: "string \<Rightarrow> bool" where
  "matches_wif s =
     (case s of [] \<Rightarrow> False
      | c # rest \<Rightarrow> (c = CHR ''5'' \<or> c = CHR ''K'' \<or> c = CHR ''L'') \<and>
          (length rest = 50 \<or> length rest = 51) \<and> list_all is_wif_char rest)"

text \<open>\<open>/^\d+$/\<close>\<close>

definition matches_decimal :: "string \<Rightarrow> bool" where
  "matches_decimal s = (s \<noteq> [] \<and> list_all is_decimal_digit s)"

text \<open>\<open>/^[01]+$/\<close>\<close>

definition matches_binary :: "string \<Rightarrow> bool" where
  "matches_binary s = (s \<noteq> [] \<and> list_all is_binary_digit s)"

text \<open>\<open>/^0x[a-fA-F0-9]{1,64}$/\<close>\<close>

definition matches_0x_hex :: "string \<Rightarrow> bool" where
  "matches_0x_hex s =
     (take 2 s = ''0x'' \<and> 1 \<le> length (drop 2 s) \<and> length (drop 2 s) \<le> 64 \<and>
      list_all is_hex_digit (drop 2 s))"

text \<open>\<open>BigInt(s)\<close> for a string of digits in a base.\<close>

definition BigInt_of :: "int \<Rightarrow> string \<Rightarrow> int" where
  "BigInt_of base s = foldl (\<lambda>acc c. acc * base + (int (of_char c :: nat) - 48)) 0 s"

text \<open>\<open>toString(16)\<close> of a number that is not negative.\<close>

function toString16 :: "int \<Rightarrow> string" where
  "toString16 n =
     (if n < 16 then [hex_digits ! nat n]
      else toString16 (n div 16) @ [hex_digits ! nat (n mod 16)])"
  by pat_completeness auto
termination
  by (relation "measure nat") auto

declare toString16.simps [simp del]

definition padStart :: "nat \<Rightarrow> char \<Rightarrow> string \<Rightarrow> string" where
  "padStart n c s = replicate (n - length s) c @ s"

definition parsePrivateKey :: "string \<Rightarrow> parsed_key" where
  "parsePrivateKey input =
     (let cleaned = trim input
      in if matches_hex64 cleaned
         then \<lparr>privateKeyHex = toLowerCase cleaned, format = Hex, error = None\<rparr>
         else if matches_wif cleaned
         then (case wifToPrivateKey cleaned of
                 Inr r \<Rightarrow> \<lparr>privateKeyHex = privateKey r, format = Wif, error = None\<rparr>
               | Inl e \<Rightarrow> \<lparr>privateKeyHex = [], format = Unknown, error = Some ''Invalid WIF format''\<rparr>)
         else if matches_decimal cleaned \<and>
                 length (padStart 64 (CHR ''0'') (toString16 (BigInt_of 10 cleaned))) \<le> 64
         then \<lparr>privateKeyHex = padStart 64 (CHR ''0'') (toString16 (BigInt_of 10 cleaned)),
               format = Decimal, error = None\<rparr>
         else if matches_binary cleaned \<and> length cleaned \<le> 256
         then \<lparr>privateKeyHex = padStart 64 (CHR ''0'') (toString16 (BigInt_of 2 cleaned)),
               format = Binary, error = None\<rparr>
         else if matches_0x_hex cleaned
         then \<lparr>privateKeyHex = toLowerCase (padStart 64 (CHR ''0'') (drop 2 cleaned)),
               format = Hex, error = None\<rparr>
         else \<lparr>privateKeyHex = [], format = Unknown,
               error = Some ''Could not parse private key format''\<rparr>)"

section \<open>Properties of Base58, WIF and addresses\<close>

text \<open>
  Claim C1 (Base58 round trip): decoding the encoding of a byte sequence should give the
  byte sequence back.  \<open>base58Decode\<close> adds the alphabet index of the character, not the
  carry, to every byte, and it walks on into the byte it has just pushed; any number of
  more than one byte is garbled.  The two bytes 01 00 are encoded as \<open>5R\<close>, which
  decodes to 52 00.  The empty sequence is encoded as \<open>1\<close>, as one zero byte would be,
  and comes back as two zero bytes.
\<close>

theorem base58_roundtrip_fails_on_0100:
  "base58Encode [1, 0] = ''5R'' \<and> base58Decode (base58Encode [1, 0]) = Inr [82, 0] \<and>
   base58Encode [] = ''1'' \<and> base58Decode (base58Encode []) = Inr [0, 0]"
  by code_simp

text \<open>
  Claim C2 (WIF round trip): \<open>wifToPrivateKey\<close> of the compressed main-net WIF of a
  32-byte key should return the key.  For the key 00..01 the WIF string is the standard
  one, but \<open>base58Decode\<close> turns it into 150 garbled bytes (see C1), the checksum
  comparison fails and \<open>wifToPrivateKey\<close> throws.
\<close>

theorem wif_roundtrip_fails_on_key_one:
  "privateKeyToWIF ''0000000000000000000000000000000000000000000000000000000000000001'' True True
     = ''KwDiBf89QgGbjEhKnhXJuH7LrciVrZi3qYjgd9M7rFU73sVHnoWn'' \<and>
   wifToPrivateKey
     (privateKeyToWIF ''0000000000000000000000000000000000000000000000000000000000000001'' True True)
     = Inl (Error ''Invalid WIF checksum'')"
  by code_simp

text \<open>
  Claim C3 (address test vector): the compressed address of the private key with scalar 1
  is \<open>1BgGZ9tcN4rm9KBzDn7KprQz87SZ26SAMH\<close>.
\<close>

theorem privateKeyToAddress_key_one:
  "privateKeyToAddress ''0000000000000000000000000000000000000000000000000000000000000001'' True
     = Inr ''1BgGZ9tcN4rm9KBzDn7KprQz87SZ26SAMH''"
  by code_simp

section \<open>Properties of the ciphers\<close>

subsection \<open>The alphabet and the case of letters\<close>


lemma upper_range_all: "list_all (\<lambda>n. char_of n \<in> set alphabet) [65..<91]"
  by code_simp

lemma lower_range_all:
  "list_all (\<lambda>n. char_of (n - 32) \<in> set alphabet \<and> char_of n = toLowerCase_char (char_of (n - 32))) [97..<123]"
  by code_simp

lemma alphabet_all:
  "list_all (\<lambda>u. toUpperCase [u] = [u] \<and> toUpperCase [toLowerCase_char u] = [u]
      \<and> toLowerCase_char u \<noteq> u \<and> 0 \<le> indexOf alphabet [u] \<and> indexOf alphabet [u] < 26
      \<and> alphabet ! nat (indexOf alphabet [u]) = u \<and> is_upper_AZ u) alphabet"
  by code_simp

lemma nth_all:
  "list_all (\<lambda>n. alphabet ! n \<in> set alphabet \<and> indexOf alphabet [alphabet ! n] = int n) [0..<26]"
  by code_simp

lemma is_upper_AZ_alphabet: "is_upper_AZ c \<Longrightarrow> c \<in> set alphabet"
proof -
  assume "is_upper_AZ c"
  then have "65 \<le> (of_char c :: nat) \<and> (of_char c :: nat) < 91"
    by (simp add: is_upper_AZ_def)
  then have "(of_char c :: nat) \<in> set [65..<91]"
    by (simp only: set_upt atLeastLessThan_iff)
  then have "char_of (of_char c :: nat) \<in> set alphabet"
    using upper_range_all unfolding list_all_iff by blast
  then show ?thesis by simp
qed

lemma letter_cases:
  assumes "is_ascii_letter c"
  shows "\<exists>u \<in> set alphabet. c = u \<or> c = toLowerCase_char u"
proof (cases "is_upper_AZ c")
  case True
  then show ?thesis using is_upper_AZ_alphabet by blast
next
  case False
  with assms have "97 \<le> (of_char c :: nat) \<and> (of_char c :: nat) < 123"
    unfolding is_ascii_letter_def is_upper_AZ_def by arith
  then have "(of_char c :: nat) \<in> set [97..<123]"
    by (simp only: set_upt atLeastLessThan_iff)
  then have "char_of (of_char c - 32 :: nat) \<in> set alphabet \<and>
      char_of (of_char c :: nat) = toLowerCase_char (char_of (of_char c - 32 :: nat))"
    using lower_range_all unfolding list_all_iff by blast
  then show ?thesis by auto
qed

lemma alphabet_facts:
  assumes "u \<in> set alphabet"
  shows "toUpperCase [u] = [u]" "toUpperCase [toLowerCase_char u] = [u]"
    "toLowerCase_char u \<noteq> u" "0 \<le> indexOf alphabet [u]" "indexOf alphabet [u] < 26"
    "alphabet ! nat (indexOf alphabet [u]) = u" "is_upper_AZ u"
  using assms alphabet_all unfolding list_all_iff by blast+

lemma alphabet_nth:
  assumes "0 \<le> d" "d < 26"
  shows "alphabet ! nat d \<in> set alphabet" "indexOf alphabet [alphabet ! nat d] = d"
proof -
  have "0 \<le> nat d \<and> nat d < 26" using assms by simp
  then have "nat d \<in> set [0..<26]"
    by (simp only: set_upt atLeastLessThan_iff)
  then have "alphabet ! nat d \<in> set alphabet \<and> indexOf alphabet [alphabet ! nat d] = int (nat d)"
    using nth_all unfolding list_all_iff by blast
  then show "alphabet ! nat d \<in> set alphabet" "indexOf alphabet [alphabet ! nat d] = d"
    using assms by simp_all
qed


lemma beaufort_index_inverse:
  fixes k i :: int
  assumes "0 \<le> k" "k < 26" "0 \<le> i" "i < 26"
  shows "(k - (k - i + 26) mod 26 + 26) mod 26 = i"
proof (cases "i \<le> k")
  case True
  have "(k - i + 26) mod 26 = (k - i) mod 26"
    by simp
  also have "\<dots> = k - i"
    by (rule mod_pos_pos_trivial) (use assms True in linarith)+
  finally have "k - (k - i + 26) mod 26 + 26 = i + 26"
    by simp
  moreover have "(i + 26) mod 26 = i mod 26"
    by simp
  moreover have "i mod 26 = i"
    by (rule mod_pos_pos_trivial) (use assms in linarith)+
  ultimately show ?thesis by simp
next
  case False
  have "(k - i + 26) mod 26 = k - i + 26"
    by (rule mod_pos_pos_trivial) (use assms False in linarith)+
  then have "k - (k - i + 26) mod 26 + 26 = i"
    by simp
  moreover have "i mod 26 = i"
    by (rule mod_pos_pos_trivial) (use assms in linarith)+
  ultimately show ?thesis by simp
qed


lemma beaufort_loop_self_inverse:
  assumes key: "normalizedKey \<noteq> []" "set normalizedKey \<subseteq> set alphabet"
  shows "list_all is_ascii_letter x \<Longrightarrow>
    beaufort_loop normalizedKey keyIndex (beaufort_loop normalizedKey keyIndex x) = x"
proof (induction x arbitrary: keyIndex)
  case Nil
  then show ?case by simp
next
  case (Cons c x)
  from Cons.prems have letter: "is_ascii_letter c" and rest: "list_all is_ascii_letter x"
    by simp_all
  obtain u where u: "u \<in> set alphabet" and cu: "c = u \<or> c = toLowerCase_char u"
    using letter_cases [OF letter] by blast
  have up: "toUpperCase [c] = [u]"
    using cu alphabet_facts(1,2) [OF u] by auto
  define kc where "kc = normalizedKey ! (keyIndex mod length normalizedKey)"
  have "keyIndex mod length normalizedKey < length normalizedKey"
    using key(1) by simp
  then have kc: "kc \<in> set alphabet"
    using key(2) nth_mem unfolding kc_def by blast
  define i where "i = indexOf alphabet [u]"
  define k where "k = indexOf alphabet [kc]"
  define d where "d = (k - i + 26) mod 26"
  have i: "0 \<le> i" "i < 26" and k: "0 \<le> k" "k < 26"
    using alphabet_facts(4,5) [OF u] alphabet_facts(4,5) [OF kc] unfolding i_def k_def by simp_all
  have d: "0 \<le> d" "d < 26"
    unfolding d_def by simp_all
  define a where "a = alphabet ! nat d"
  have a: "a \<in> set alphabet" "indexOf alphabet [a] = d"
    using alphabet_nth [OF d] unfolding a_def by simp_all
  define out where "out = (if [c] = [u] then a else toLowerCase_char a)"
  have step1: "beaufort_loop normalizedKey keyIndex (c # x)
      = out # beaufort_loop normalizedKey (keyIndex + 1) x"
    using i(1) by (simp add: up Let_def out_def a_def d_def k_def i_def kc_def)
  have upo: "toUpperCase [out] = [a]"
    unfolding out_def using alphabet_facts(1,2) [OF a(1)] by simp
  have same: "[out] = [a] \<longleftrightarrow> c = u"
    unfolding out_def using alphabet_facts(3) [OF a(1)] by simp
  have inv: "(k - d + 26) mod 26 = i"
    unfolding d_def using beaufort_index_inverse [OF k i] .
  then have inv': "(k - d) mod 26 = i"
    by simp
  have ui: "alphabet ! nat i = u"
    using alphabet_facts(6) [OF u] unfolding i_def .
  have cback: "(if c = u then u else toLowerCase_char u) = c"
    using cu by auto
  have step2: "beaufort_loop normalizedKey keyIndex (out # beaufort_loop normalizedKey (keyIndex + 1) x)
      = c # beaufort_loop normalizedKey (keyIndex + 1) (beaufort_loop normalizedKey (keyIndex + 1) x)"
    using d(1) same cu
    by (auto simp add: upo a(2) Let_def inv' ui simp flip: k_def kc_def)
  show ?case
    unfolding step1 step2 using Cons.IH [OF rest] by simp
qed







lemma normalizedKey_alphabet: "set (filter is_upper_AZ s) \<subseteq> set alphabet"
  using is_upper_AZ_alphabet by auto

text \<open>
  Claim C4 (Beaufort is self-inverse): for a text of ASCII letters only and a key whose
  normalization (upper-cased, non-letters stripped) is not empty, applying
  \<open>decryptBeaufort\<close> twice with the same key gives the text back.
\<close>

theorem decryptBeaufort_self_inverse:
  assumes "list_all is_ascii_letter x" and "filter is_upper_AZ (toUpperCase k) \<noteq> []"
  shows "decryptBeaufort (decryptBeaufort x k) k = x"
  using assms beaufort_loop_self_inverse [OF assms(2) normalizedKey_alphabet assms(1)]
  by (simp add: decryptBeaufort_def)

text \<open>Claim C4 at the text \<open>AttackAtDawn\<close> with the key \<open>Le-mon 7\<close>.\<close>

theorem decryptBeaufort_self_inverse_witness:
  "list_all is_ascii_letter ''AttackAtDawn'' \<and> filter is_upper_AZ (toUpperCase ''Le-mon 7'') \<noteq> [] \<and>
   decryptBeaufort ''AttackAtDawn'' ''Le-mon 7'' = ''LltolbEtLnpr'' \<and>
   decryptBeaufort (decryptBeaufort ''AttackAtDawn'' ''Le-mon 7'') ''Le-mon 7'' = ''AttackAtDawn''"
proof -
  have h1: "list_all is_ascii_letter ''AttackAtDawn''"
    by code_simp
  have h2: "filter is_upper_AZ (toUpperCase ''Le-mon 7'') \<noteq> []"
    by code_simp
  have h3: "decryptBeaufort ''AttackAtDawn'' ''Le-mon 7'' = ''LltolbEtLnpr''"
    by code_simp
  show ?thesis
    using h1 h2 h3 decryptBeaufort_self_inverse [OF h1 h2] by simp
qed




subsection \<open>The checkerboard\<close>


lemma String_of_digit: "0 \<le> d \<Longrightarrow> d \<le> 9 \<Longrightarrow> String_of d = [digit_char d]"
  by (simp add: String_of_def dec_digits.simps)

lemma digit_char_inj:
  assumes "0 \<le> a" "a \<le> 9" "0 \<le> b" "b \<le> 9" "digit_char a = digit_char b"
  shows "a = b"
proof -
  have "(of_char (digit_char a) :: nat) = of_char (digit_char b)"
    using assms(5) by simp
  moreover have "(48 + nat a) mod 256 = 48 + nat a" "(48 + nat b) mod 256 = 48 + nat b"
    using assms(1-4) by (intro mod_less; linarith)+
  ultimately have "48 + nat a = 48 + nat b"
    by (simp add: digit_char_def)
  then show ?thesis using assms(1,3) by simp
qed

lemma digit_not_space: "0 \<le> d \<Longrightarrow> d \<le> 9 \<Longrightarrow> \<not> is_space (digit_char d)"
proof -
  assume d: "0 \<le> d" "d \<le> 9"
  have "(48 + nat d) mod 256 = 48 + nat d"
    using d by (intro mod_less) linarith
  then have "(of_char (digit_char d) :: nat) = 48 + nat d"
    by (simp add: digit_char_def)
  moreover have "48 \<le> 48 + nat d" "48 + nat d \<le> 57"
    using d by simp_all
  ultimately show ?thesis
    by (simp add: is_space_def)
qed

lemma set_codes_other:
  "code \<notin> set codes \<Longrightarrow> fst (set_codes A codes (m, k)) code = m code"
  by (induction codes arbitrary: m k) auto

lemma set_codes_nth:
  "distinct codes \<Longrightarrow> j < length codes \<Longrightarrow> k + j < length A \<Longrightarrow>
     fst (set_codes A codes (m, k)) (codes ! j) = Some [A ! (k + j)]"
proof (induction codes arbitrary: m k j)
  case Nil
  then show ?case by simp
next
  case (Cons code codes)
  have k: "k < length A" using Cons.prems(3) by simp
  show ?case
  proof (cases j)
    case 0
    have "code \<notin> set codes" using Cons.prems(1) by simp
    then show ?thesis
      using k 0 by (simp add: set_codes_other)
  next
    case (Suc j')
    have "fst (set_codes A codes (m(code \<mapsto> [A ! k]), k + 1)) (codes ! j') = Some [A ! (k + 1 + j')]"
      using Cons.prems Suc by (intro Cons.IH) simp_all
    then show ?thesis
      using k Suc by simp
  qed
qed

lemma ten_digits:
  "distinct [0, 1, 2, 3, 4, 5, 6, 7, 8, 9 :: int]"
  "set [0, 1, 2, 3, 4, 5, 6, 7, 8, 9 :: int] = {0..9}"
proof -
  show "distinct [0, 1, 2, 3, 4, 5, 6, 7, 8, 9 :: int]"
    by simp
  have "[0, 1, 2, 3, 4, 5, 6, 7, 8, 9 :: int] = [0..9]"
    by code_simp
  then show "set [0, 1, 2, 3, 4, 5, 6, 7, 8, 9 :: int] = {0..9}"
    by (simp only: set_upto)
qed

lemma singleDigits_set:
  "set (singleDigits d1 d2) = {d. 0 \<le> d \<and> d \<le> 9 \<and> d \<noteq> d1 \<and> d \<noteq> d2}"
  unfolding singleDigits_def set_filter ten_digits(2) by auto

lemma singleDigits_sorted: "sorted_wrt (<) (singleDigits d1 d2)"
  unfolding singleDigits_def by (intro sorted_wrt_filter) simp

lemma singleDigits_length:
  assumes "0 \<le> d1" "d1 \<le> 9" "0 \<le> d2" "d2 \<le> 9" "d1 \<noteq> d2"
  shows "length (singleDigits d1 d2) = 8"
proof -
  define xs where "xs = [0, 1, 2, 3, 4, 5, 6, 7, 8, 9 :: int]"
  have xs: "distinct xs" "set xs = {0..9}" "length xs = 10"
    unfolding xs_def using ten_digits by simp_all
  have "{x. \<not> (x \<noteq> d1 \<and> x \<noteq> d2)} \<inter> set xs = {d1, d2}"
    unfolding xs(2) using assms(1-4) by auto
  then have "length (filter (\<lambda>d. \<not> (d \<noteq> d1 \<and> d \<noteq> d2)) xs) = card {d1, d2}"
    using distinct_length_filter [OF xs(1)] by simp
  then have "length (filter (\<lambda>d. \<not> (d \<noteq> d1 \<and> d \<noteq> d2)) xs) = 2"
    using assms(5) by simp
  moreover have "length (filter (\<lambda>d. d \<noteq> d1 \<and> d \<noteq> d2) xs)
      + length (filter (\<lambda>d. \<not> (d \<noteq> d1 \<and> d \<noteq> d2)) xs) = length xs"
    by (rule sum_length_filter_compl)
  ultimately have "length (filter (\<lambda>d. d \<noteq> d1 \<and> d \<noteq> d2) xs) = 8"
    using xs(3) by simp
  then show ?thesis
    unfolding singleDigits_def xs_def .
qed

lemma singleDigits_nth:
  assumes "j < length (singleDigits d1 d2)"
  shows "0 \<le> singleDigits d1 d2 ! j" "singleDigits d1 d2 ! j \<le> 9"
    "singleDigits d1 d2 ! j \<noteq> d1" "singleDigits d1 d2 ! j \<noteq> d2"
proof -
  have "singleDigits d1 d2 ! j \<in> set (singleDigits d1 d2)"
    using assms by (rule nth_mem)
  then have "singleDigits d1 d2 ! j \<in> {d. 0 \<le> d \<and> d \<le> 9 \<and> d \<noteq> d1 \<and> d \<noteq> d2}"
    unfolding singleDigits_set .
  then show "0 \<le> singleDigits d1 d2 ! j" "singleDigits d1 d2 ! j \<le> 9"
    "singleDigits d1 d2 ! j \<noteq> d1" "singleDigits d1 d2 ! j \<noteq> d2"
    by simp_all
qed

lemma single_codes_distinct: "distinct (map String_of (singleDigits d1 d2))"
proof -
  have "distinct (singleDigits d1 d2)"
    using singleDigits_sorted [of d1 d2] strict_sorted_iff by blast
  moreover have "inj_on String_of (set (singleDigits d1 d2))"
  proof (rule inj_onI)
    fix a b
    assume a: "a \<in> set (singleDigits d1 d2)" and b: "b \<in> set (singleDigits d1 d2)"
      and eq: "String_of a = String_of b"
    have ra: "0 \<le> a" "a \<le> 9" and rb: "0 \<le> b" "b \<le> 9"
      using a b unfolding singleDigits_set by simp_all
    have "digit_char a = digit_char b"
      using eq String_of_digit [OF ra] String_of_digit [OF rb] by simp
    then show "a = b"
      using digit_char_inj ra rb by blast
  qed
  ultimately show ?thesis
    by (simp add: distinct_map)
qed

lemma String_of_nonempty: "String_of n \<noteq> []"
proof -
  have "dec_digits m \<noteq> []" for m
    by (subst dec_digits.simps) simp
  then show ?thesis
    by (simp add: String_of_def)
qed

lemma two_digit_codes_long:
  "code \<in> set (map (\<lambda>i. String_of d @ String_of i) is) \<Longrightarrow> 2 \<le> length code"
proof -
  assume "code \<in> set (map (\<lambda>i. String_of d @ String_of i) is)"
  then obtain i where "code = String_of d @ String_of i"
    by auto
  moreover have "1 \<le> length (String_of d)" "1 \<le> length (String_of i)"
    using String_of_nonempty [of d] String_of_nonempty [of i]
    by (simp_all add: Suc_le_eq)
  ultimately show ?thesis by simp
qed

lemma build_charMap_single:
  assumes "length code = 1"
  shows "build_charMap A d1 d2 code
    = fst (set_codes A (map String_of (singleDigits d1 d2)) (Map.empty, 0)) code"
proof -
  have n1: "code \<notin> set (map (\<lambda>i. String_of d1 @ String_of i) [0, 1, 2, 3, 4, 5, 6, 7, 8, 9])"
    using two_digit_codes_long [of code d1] assms by fastforce
  have n2: "code \<notin> set (map (\<lambda>i. String_of d2 @ String_of i) [0, 1, 2, 3, 4, 5, 6, 7, 8, 9])"
    using two_digit_codes_long [of code d2] assms by fastforce
  obtain m1 k1 where s1: "set_codes A (map String_of (singleDigits d1 d2)) (Map.empty, 0) = (m1, k1)"
    by (cases "set_codes A (map String_of (singleDigits d1 d2)) (Map.empty, 0)")
  obtain m2 k2 where s2: "set_codes A (map (\<lambda>i. String_of d1 @ String_of i) [0, 1, 2, 3, 4, 5, 6, 7, 8, 9]) (m1, k1) = (m2, k2)"
    by (cases "set_codes A (map (\<lambda>i. String_of d1 @ String_of i) [0, 1, 2, 3, 4, 5, 6, 7, 8, 9]) (m1, k1)")
  have "m2 code = m1 code"
    using set_codes_other [OF n1, of A m1 k1] s2 by simp
  moreover have "fst (set_codes A (map (\<lambda>i. String_of d2 @ String_of i) [0, 1, 2, 3, 4, 5, 6, 7, 8, 9]) (m2, k2)) code = m2 code"
    using set_codes_other [OF n2] .
  ultimately show ?thesis
    unfolding build_charMap_def s1 s2 by simp
qed

text \<open>
  Claim C7 (VIC checkerboard), as the claim states it: the single-digit codes go to the
  first symbols of the supplied alphabet.  \<open>decryptVIC\<close> upper-cases the alphabet first,
  so with a lower-case alphabet the digit 0 decodes to \<open>F\<close>, which is not the first
  symbol \<open>f\<close> of the alphabet that was supplied.
\<close>

theorem decryptVIC_lower_case_alphabet_counterexample:
  "decryptVIC ''0'' ''fubcdoralethingkymvpsjqzxw'' 1 4 = ''F'' \<and>
   decryptVIC ''0'' ''fubcdoralethingkymvpsjqzxw'' 1 4 \<noteq> [''fubcdoralethingkymvpsjqzxw'' ! 0]"
  by code_simp

text \<open>
  Claim C7, amended: for two different escape digits between 0 and 9, the digits other
  than the escape digits are eight, in ascending order, and the \<open>j\<close>-th of them is the
  single-digit code of the \<open>j\<close>-th symbol of the upper-cased alphabet, for every position
  \<open>j\<close> below 8 that the alphabet has; that digit alone decodes to that symbol.  The
  alphabet is any string of 8-bit characters whose upper case is again such a string
  (\<open>upper_case_8bit\<close>: it holds neither U+00B5 nor U+00FF), so that \<open>toUpperCase\<close> is
  exactly the upper case that the code computes.
\<close>

theorem decryptVIC_single_digit_codes:
  assumes "0 \<le> d1" "d1 \<le> 9" "0 \<le> d2" "d2 \<le> 9" "d1 \<noteq> d2"
    and "j < 8" "j < length (toUpperCase alphabet')"
    and "upper_case_8bit alphabet'"
  shows "length (singleDigits d1 d2) = 8 \<and>
    sorted_wrt (<) (singleDigits d1 d2) \<and>
    set (singleDigits d1 d2) = {d. 0 \<le> d \<and> d \<le> 9 \<and> d \<noteq> d1 \<and> d \<noteq> d2} \<and>
    build_charMap (toUpperCase alphabet') d1 d2 (String_of (singleDigits d1 d2 ! j))
      = Some [toUpperCase alphabet' ! j] \<and>
    decryptVIC (String_of (singleDigits d1 d2 ! j)) alphabet' d1 d2 = [toUpperCase alphabet' ! j]"
proof -
  define A where "A = toUpperCase alphabet'"
  define d where "d = singleDigits d1 d2 ! j"
  have len: "length (singleDigits d1 d2) = 8"
    using assms(1-5) by (rule singleDigits_length)
  have j: "j < length (singleDigits d1 d2)"
    using len assms(6) by simp
  have d: "0 \<le> d" "d \<le> 9" "d \<noteq> d1" "d \<noteq> d2"
    using singleDigits_nth [OF j] unfolding d_def by simp_all
  have code: "String_of d = [digit_char d]"
    using d(1,2) by (rule String_of_digit)
  have "fst (set_codes A (map String_of (singleDigits d1 d2)) (Map.empty, 0))
          (map String_of (singleDigits d1 d2) ! j) = Some [A ! (0 + j)]"
    using single_codes_distinct j assms(7) unfolding A_def by (intro set_codes_nth) simp_all
  then have "fst (set_codes A (map String_of (singleDigits d1 d2)) (Map.empty, 0)) (String_of d)
      = Some [A ! j]"
    using j unfolding d_def by simp
  then have cm: "build_charMap A d1 d2 (String_of d) = Some [A ! j]"
    using build_charMap_single [of "String_of d" A d1 d2] code by simp
  have ne1: "[digit_char d] \<noteq> String_of d1"
    using String_of_digit [OF assms(1,2)] digit_char_inj [OF d(1,2) assms(1,2)] d(3) by auto
  have ne2: "[digit_char d] \<noteq> String_of d2"
    using String_of_digit [OF assms(3,4)] digit_char_inj [OF d(1,2) assms(3,4)] d(4) by auto
  have "filter (\<lambda>c. \<not> is_space c) (String_of d) = [digit_char d]"
    using digit_not_space [OF d(1,2)] code by simp
  then have "decryptVIC (String_of d) alphabet' d1 d2 = [A ! j]"
    using ne1 ne2 cm code
    by (simp add: decryptVIC_def Let_def lookup_def flip: A_def)
  then show ?thesis
    using len singleDigits_sorted singleDigits_set cm unfolding A_def d_def by simp
qed

text \<open>
  Claim C7, amended, at the alphabet and the escape digits 1 and 4 of the claim: the
  digit 0 decodes to \<open>F\<close>.
\<close>

theorem decryptVIC_single_digit_codes_witness:
  "(0::int) \<le> 1 \<and> (1::int) \<le> 9 \<and> (0::int) \<le> 4 \<and> (4::int) \<le> 9 \<and> (1::int) \<noteq> 4 \<and> (0::nat) < 8 \<and>
   0 < length (toUpperCase ''FUBCDORALETHINGKYMVPSJQZXW'') \<and>
   upper_case_8bit ''FUBCDORALETHINGKYMVPSJQZXW'' \<and>
   singleDigits 1 4 = [0, 2, 3, 5, 6, 7, 8, 9] \<and>
   decryptVIC ''0'' ''FUBCDORALETHINGKYMVPSJQZXW'' 1 4 = ''F''"
proof -
  have h: "0 < length (toUpperCase ''FUBCDORALETHINGKYMVPSJQZXW'')"
    by code_simp
  have a: "upper_case_8bit ''FUBCDORALETHINGKYMVPSJQZXW''"
    by code_simp
  have s: "singleDigits 1 4 = [0, 2, 3, 5, 6, 7, 8, 9]"
    by code_simp
  have c: "String_of 0 = ''0''"
    by code_simp
  have u: "toUpperCase ''FUBCDORALETHINGKYMVPSJQZXW'' ! 0 = CHR ''F''"
    by code_simp
  show ?thesis
    using h a s c u
      decryptVIC_single_digit_codes [of 1 4 0 "''FUBCDORALETHINGKYMVPSJQZXW''"]
    by simp
qed

section \<open>Properties of the spiral\<close>


lemma box_cells_empty: "\<not> (t \<le> b \<and> l \<le> r) \<Longrightarrow> box_cells m t b l r = []"
  by (auto simp add: box_cells_def)

lemma peel_top:
  "t \<le> b \<Longrightarrow> mset (box_cells m t b l r)
     = mset (map (\<lambda>j. cell m t j) [l..r]) + mset (box_cells m (t + 1) b l r)"
  by (simp add: box_cells_def upto_rec1 [of t b])

lemma peel_bottom:
  "t \<le> b \<Longrightarrow> mset (box_cells m t b l r)
     = mset (map (\<lambda>j. cell m b j) [l..r]) + mset (box_cells m t (b - 1) l r)"
  by (simp add: box_cells_def upto_rec2 [of t b])

lemma peel_first_column:
  "l \<le> r \<Longrightarrow> mset (concat (map (\<lambda>i. map (f i) [l..r]) rows))
     = mset (map (\<lambda>i. f i l) rows) + mset (concat (map (\<lambda>i. map (f i) [l + 1..r]) rows))"
  by (induction rows) (simp_all add: upto_rec1 [of l r])

lemma peel_last_column:
  "l \<le> r \<Longrightarrow> mset (concat (map (\<lambda>i. map (f i) [l..r]) rows))
     = mset (map (\<lambda>i. f i r) rows) + mset (concat (map (\<lambda>i. map (f i) [l..r - 1]) rows))"
  by (induction rows) (simp_all add: upto_rec2 [of l r])

lemma peel_left:
  "l \<le> r \<Longrightarrow> mset (box_cells m t b l r)
     = mset (map (\<lambda>i. cell m i l) [t..b]) + mset (box_cells m t b (l + 1) r)"
  unfolding box_cells_def by (rule peel_first_column)

lemma peel_right:
  "l \<le> r \<Longrightarrow> mset (box_cells m t b l r)
     = mset (map (\<lambda>i. cell m i r) [t..b]) + mset (box_cells m t b l (r - 1))"
  unfolding box_cells_def by (rule peel_last_column)

lemma spiral_loop_mset:
  "mset (spiral_loop m ccw t b l r acc) = mset acc + mset (box_cells m t b l r)"
proof (induction "nat (b - t + 1) + nat (r - l + 1)" arbitrary: t b l r acc rule: less_induct)
  case less
  show ?case
  proof (cases "t \<le> b \<and> l \<le> r")
    case False
    have "spiral_loop m ccw t b l r acc = acc"
      by (subst spiral_loop.simps) (simp only: False if_False)
    then show ?thesis
      using box_cells_empty [OF False] by simp
  next
    case True
    then have tb: "t \<le> b" and lr: "l \<le> r"
      by simp_all
    show ?thesis
    proof (cases ccw)
      case True
      define l1 where "l1 = l + 1"
      define b1 where "b1 = b - 1"
      define r1 where "r1 = (if l1 \<le> r then r - 1 else r)"
      define t1 where "t1 = (if t \<le> b1 then t + 1 else t)"
      define side1 where "side1 = map (\<lambda>i. cell m i l) [t..b]"
      define side2 where "side2 = map (\<lambda>i. cell m b i) [l1..r]"
      define side3 where "side3 = (if l1 \<le> r then map (\<lambda>i. cell m i r) (rev [t..b1]) else [])"
      define side4 where "side4 = (if t \<le> b1 then map (\<lambda>i. cell m t i) (rev [l1..r1]) else [])"
      have unfold: "spiral_loop m ccw t b l r acc
          = spiral_loop m ccw t1 b1 l1 r1 (acc @ side1 @ side2 @ side3 @ side4)"
        using tb lr True
        by (subst spiral_loop.simps)
          (simp add: Let_def l1_def b1_def r1_def t1_def side1_def side2_def side3_def side4_def)
      have e1: "mset (box_cells m t b l r) = mset side1 + mset (box_cells m t b l1 r)"
        unfolding side1_def l1_def using lr by (rule peel_left)
      have e2: "mset (box_cells m t b l1 r) = mset side2 + mset (box_cells m t b1 l1 r)"
        unfolding side2_def b1_def using tb by (rule peel_bottom)
      have e3: "mset (box_cells m t b1 l1 r) = mset side3 + mset (box_cells m t b1 l1 r1)"
        using peel_right [of l1 r m t b1] by (simp add: side3_def r1_def)
      have e4: "mset (box_cells m t b1 l1 r1) = mset side4 + mset (box_cells m t1 b1 l1 r1)"
        using peel_top [of t b1 m l1 r1] by (simp add: side4_def t1_def)
      have "nat (b1 - t1 + 1) + nat (r1 - l1 + 1) < nat (b - t + 1) + nat (r - l + 1)"
        using tb lr by (auto simp add: l1_def b1_def r1_def t1_def)
      then have "mset (spiral_loop m ccw t1 b1 l1 r1 (acc @ side1 @ side2 @ side3 @ side4))
          = mset (acc @ side1 @ side2 @ side3 @ side4) + mset (box_cells m t1 b1 l1 r1)"
        by (rule less)
      then show ?thesis
        unfolding unfold e1 e2 e3 e4 by simp
    next
      case False
      define t1 where "t1 = t + 1"
      define r1 where "r1 = r - 1"
      define b1 where "b1 = (if t1 \<le> b then b - 1 else b)"
      define l1 where "l1 = (if l \<le> r1 then l + 1 else l)"
      define side1 where "side1 = map (\<lambda>i. cell m t i) [l..r]"
      define side2 where "side2 = map (\<lambda>i. cell m i r) [t1..b]"
      define side3 where "side3 = (if t1 \<le> b then map (\<lambda>i. cell m b i) (rev [l..r1]) else [])"
      define side4 where "side4 = (if l \<le> r1 then map (\<lambda>i. cell m i l) (rev [t1..b1]) else [])"
      have unfold: "spiral_loop m ccw t b l r acc
          = spiral_loop m ccw t1 b1 l1 r1 (acc @ side1 @ side2 @ side3 @ side4)"
        using tb lr False
        by (subst spiral_loop.simps)
          (simp add: Let_def l1_def b1_def r1_def t1_def side1_def side2_def side3_def side4_def)
      have e1: "mset (box_cells m t b l r) = mset side1 + mset (box_cells m t1 b l r)"
        unfolding side1_def t1_def using tb by (rule peel_top)
      have e2: "mset (box_cells m t1 b l r) = mset side2 + mset (box_cells m t1 b l r1)"
        unfolding side2_def r1_def using lr by (rule peel_right)
      have e3: "mset (box_cells m t1 b l r1) = mset side3 + mset (box_cells m t1 b1 l r1)"
        using peel_bottom [of t1 b m l r1] by (simp add: side3_def b1_def)
      have e4: "mset (box_cells m t1 b1 l r1) = mset side4 + mset (box_cells m t1 b1 l1 r1)"
        using peel_left [of l r1 m t1 b1] by (simp add: side4_def l1_def)
      have "nat (b1 - t1 + 1) + nat (r1 - l1 + 1) < nat (b - t + 1) + nat (r - l + 1)"
        using tb lr by (auto simp add: l1_def b1_def r1_def t1_def)
      then have "mset (spiral_loop m ccw t1 b1 l1 r1 (acc @ side1 @ side2 @ side3 @ side4))
          = mset (acc @ side1 @ side2 @ side3 @ side4) + mset (box_cells m t1 b1 l1 r1)"
        by (rule less)
      then show ?thesis
        unfolding unfold e1 e2 e3 e4 by simp
    qed
  qed
qed


lemma upto_from_0: "[0..int n - 1] = map int [0..<n]"
proof (induction n)
  case 0
  then show ?case by simp
next
  case (Suc n)
  have "[0..int (Suc n) - 1] = [0..int n - 1] @ [int n]"
    using upto_rec2 [of 0 "int n"] by simp
  then show ?case
    using Suc by simp
qed

lemma concat_length_rect: "\<forall>row \<in> set m. length row = c \<Longrightarrow> length (concat m) = length m * c"
  by (induction m) simp_all

lemma box_cells_rect:
  assumes "\<forall>row \<in> set m. length row = c"
  shows "box_cells m 0 (int (length m) - 1) 0 (int c - 1) = map Some (concat m)"
proof -
  have row: "map (\<lambda>j. cell m (int i) (int j)) [0..<c] = map Some (m ! i)" if "i < length m" for i
  proof -
    have len: "length (m ! i) = c"
      using assms that by simp
    have "map (\<lambda>j. cell m (int i) (int j)) [0..<c] = map (\<lambda>j. Some (m ! i ! j)) [0..<c]"
      using that len by (simp add: cell_def)
    also have "\<dots> = map Some (map (\<lambda>j. m ! i ! j) [0..<length (m ! i)])"
      using len by simp
    also have "\<dots> = map Some (m ! i)"
      by (simp only: map_nth)
    finally show ?thesis .
  qed
  have "box_cells m 0 (int (length m) - 1) 0 (int c - 1)
      = concat (map (\<lambda>i. map (\<lambda>j. cell m (int i) (int j)) [0..<c]) [0..<length m])"
    by (simp add: box_cells_def upto_from_0 comp_def)
  also have "\<dots> = concat (map (\<lambda>i. map Some (m ! i)) [0..<length m])"
  proof -
    have "map (\<lambda>i. map (\<lambda>j. cell m (int i) (int j)) [0..<c]) [0..<length m]
        = map (\<lambda>i. map Some (m ! i)) [0..<length m]"
      by (rule map_cong [OF refl]) (simp add: row)
    then show ?thesis by (rule arg_cong)
  qed
  also have "\<dots> = concat (map (map Some) (map (\<lambda>i. m ! i) [0..<length m]))"
    by (simp add: comp_def)
  also have "\<dots> = concat (map (map Some) m)"
    by (simp only: map_nth)
  also have "\<dots> = map Some (concat m)"
    by (simp add: map_concat)
  finally show ?thesis .
qed

lemma join_digit_cells:
  assumes "\<forall>x \<in> set xs. 0 \<le> x \<and> x \<le> 9"
  shows "join_cells (map Some xs) = map digit_char xs"
  using assms by (induction xs) (simp_all add: join_cells_def String_of_def dec_digits.simps)

lemma join_cells_digits:
  assumes "\<forall>c \<in> set cs. \<exists>x. c = Some x \<and> 0 \<le> x \<and> x \<le> 9"
  shows "join_cells cs = map (\<lambda>c. digit_char (the c)) cs"
  using assms by (induction cs) (auto simp add: join_cells_def String_of_def dec_digits.simps)

text \<open>
  Claim C10 (every cell once), as the claim states it, for every non-empty rectangular
  matrix: the cells are numbers, and \<open>join\<close> prints each in decimal, so a cell of two
  digits makes the string longer than \<open>rows * cols\<close>.
\<close>

theorem readSpiralMatrix_two_digit_cell_counterexample:
  "readSpiralMatrix [[10]] True = ''10'' \<and>
   length (readSpiralMatrix [[10]] True) \<noteq> length [[10 :: int]] * length ([[10 :: int]] ! 0)"
  by code_simp

text \<open>
  Claim C10, amended: for every non-empty rectangular matrix and either direction the
  loop visits each cell exactly once: the visited cells are \<open>rows * cols\<close> many and a
  rearrangement of the cells of the matrix.  When every cell is a single digit (0 to 9,
  as in a matrix of bits) the returned string holds one character for each visited cell,
  the digit of that cell, so it has length \<open>rows * cols\<close> and is a rearrangement of the
  digits of the cells.  Nothing is said about the string when a cell is not a single
  digit.
\<close>

theorem readSpiralMatrix_visits_each_cell_once:
  assumes "matrix \<noteq> []" and "\<forall>row \<in> set matrix. length row = length (matrix ! 0)"
  shows "mset (spiral_cells matrix ccw) = mset (map Some (concat matrix)) \<and>
    length (spiral_cells matrix ccw) = length matrix * length (matrix ! 0) \<and>
    ((\<forall>x \<in> set (concat matrix). 0 \<le> x \<and> x \<le> 9) \<longrightarrow>
       map Some (readSpiralMatrix matrix ccw)
         = map (map_option digit_char) (spiral_cells matrix ccw) \<and>
       length (readSpiralMatrix matrix ccw) = length matrix * length (matrix ! 0) \<and>
       mset (readSpiralMatrix matrix ccw) = mset (map digit_char (concat matrix)))"
proof -
  define cs where "cs = spiral_cells matrix ccw"
  have r: "readSpiralMatrix matrix ccw = join_cells cs"
    using assms(1) by (simp add: readSpiralMatrix_def cs_def)
  have "mset cs = mset (box_cells matrix 0 (int (length matrix) - 1) 0 (int (length (matrix ! 0)) - 1))"
    by (simp add: cs_def spiral_cells_def Let_def spiral_loop_mset)
  then have m: "mset cs = mset (map Some (concat matrix))"
    using box_cells_rect [OF assms(2)] by simp
  have "length cs = length (map Some (concat matrix))"
    using m by (rule mset_eq_length)
  then have l: "length cs = length matrix * length (matrix ! 0)"
    using concat_length_rect [OF assms(2)] by simp
  have d: "map Some (join_cells cs) = map (map_option digit_char) cs \<and>
      length (join_cells cs) = length matrix * length (matrix ! 0) \<and>
      mset (join_cells cs) = mset (map digit_char (concat matrix))"
    if digits: "\<forall>x \<in> set (concat matrix). 0 \<le> x \<and> x \<le> 9"
  proof -
    have "set cs = set (map Some (concat matrix))"
      using m by (rule mset_eq_setD)
    then have some: "\<forall>c \<in> set cs. \<exists>x. c = Some x \<and> 0 \<le> x \<and> x \<le> 9"
      using digits by auto
    then have j: "join_cells cs = map (\<lambda>c. digit_char (the c)) cs"
      by (rule join_cells_digits)
    have o: "map Some (map (\<lambda>c. digit_char (the c)) cs) = map (map_option digit_char) cs"
      using some by (induction cs) auto
    have "mset (map (\<lambda>c. digit_char (the c)) cs)
        = image_mset (\<lambda>c. digit_char (the c)) (mset (map Some (concat matrix)))"
      using m by simp
    also have "\<dots> = mset (map digit_char (concat matrix))"
      by (simp add: comp_def multiset.map_comp)
    finally show ?thesis
      using j l o by simp
  qed
  show ?thesis
    using r m l d unfolding cs_def by simp
qed

text \<open>Claim C10, amended, at a matrix of bits with two rows and three columns.\<close>

theorem readSpiralMatrix_visits_each_cell_once_witness:
  "[[0, 1, 1], [1, 0, 0 :: int]] \<noteq> [] \<and>
   map length [[0, 1, 1], [1, 0, 0 :: int]] = [3, 3] \<and>
   concat [[0, 1, 1], [1, 0, 0 :: int]] = [0, 1, 1, 1, 0, 0] \<and>
   spiral_cells [[0, 1, 1], [1, 0, 0]] True = map Some [0, 1, 0, 0, 1, 1] \<and>
   readSpiralMatrix [[0, 1, 1], [1, 0, 0]] True = ''010011'' \<and>
   length (readSpiralMatrix [[0, 1, 1], [1, 0, 0]] True) = 2 * 3 \<and>
   mset (readSpiralMatrix [[0, 1, 1], [1, 0, 0]] True) = mset ''011100''"
proof -
  have h1: "[[0, 1, 1], [1, 0, 0 :: int]] \<noteq> []"
    by simp
  have h2: "\<forall>row \<in> set [[0, 1, 1], [1, 0, 0 :: int]]. length row = length ([[0, 1, 1], [1, 0, 0 :: int]] ! 0)"
    by simp
  have h3: "\<forall>x \<in> set (concat [[0, 1, 1], [1, 0, 0 :: int]]). 0 \<le> x \<and> x \<le> 9"
    by simp
  have v: "readSpiralMatrix [[0, 1, 1], [1, 0, 0]] True = ''010011''"
    by code_simp
  have w: "spiral_cells [[0, 1, 1], [1, 0, 0]] True = map Some [0, 1, 0, 0, 1, 1]"
    by code_simp
  have g: "map digit_char (concat [[0, 1, 1], [1, 0, 0]]) = ''011100''"
    by code_simp
  show ?thesis
    using h1 h2 h3 v w g readSpiralMatrix_visits_each_cell_once [OF h1 h2, of True]
    by simp
qed

text \<open>
  Claim C6 (spiral test vector): the 3 by 3 matrix of the digits 1 to 9 is read as
  1,2,3,6,9,8,7,4,5 clockwise and as 1,4,7,8,9,6,3,2,5 counter-clockwise.
\<close>

theorem readSpiralMatrix_3x3:
  "readSpiralMatrix [[1, 2, 3], [4, 5, 6], [7, 8, 9]] False = ''123698745'' \<and>
   readSpiralMatrix [[1, 2, 3], [4, 5, 6], [7, 8, 9]] True = ''147896325''"
  by code_simp

section \<open>Properties of the AES decryption\<close>


text \<open>
  Claim C8 (AES decryption never raises): for every input, every password and every
  behaviour of the library, \<open>decryptAES256CBC\<close> returns a string; when the attempt
  raises, the string is \<open>AES-256-CBC Decryption Error: \<close> followed by the message of the
  error (\<open>Unknown error\<close> for a thrown value that is not an \<open>Error\<close>).
\<close>

theorem decryptAES256CBC_never_raises:
  "(\<exists>text. decryptAES256CBC lib encrypted password = Inr text) \<and>
   (\<forall>e. decrypt_attempt lib encrypted password = Inl e \<longrightarrow>
      decryptAES256CBC lib encrypted password
        = Inr (''AES-256-CBC Decryption Error: '' @ error_message e))"
  by (cases "decrypt_attempt lib encrypted password") (simp_all add: decryptAES256CBC_def)

text \<open>
  Claim C8 with a decipher that refuses a ciphertext whose length is not a positive
  multiple of the block size, on a five-byte input.
\<close>

theorem decryptAES256CBC_never_raises_witness:
  "decrypt_attempt
     \<lparr>from_base64 = map (\<lambda>c. int (of_char c :: nat)),
      utf8_string = map (\<lambda>b. char_of (nat b)),
      aes_256_cbc_decipher = (\<lambda>key iv ciphertext.
        if ciphertext = [] \<or> length ciphertext mod 16 \<noteq> 0
        then Inl (Error ''wrong final block length'') else Inr ciphertext)\<rparr>
     ''hello'' ''secret'' = Inl (Error ''wrong final block length'') \<and>
   decryptAES256CBC
     \<lparr>from_base64 = map (\<lambda>c. int (of_char c :: nat)),
      utf8_string = map (\<lambda>b. char_of (nat b)),
      aes_256_cbc_decipher = (\<lambda>key iv ciphertext.
        if ciphertext = [] \<or> length ciphertext mod 16 \<noteq> 0
        then Inl (Error ''wrong final block length'') else Inr ciphertext)\<rparr>
     ''hello'' ''secret'' = Inr ''AES-256-CBC Decryption Error: wrong final block length''"
proof -
  have h: "decrypt_attempt
     \<lparr>from_base64 = map (\<lambda>c. int (of_char c :: nat)),
      utf8_string = map (\<lambda>b. char_of (nat b)),
      aes_256_cbc_decipher = (\<lambda>key iv ciphertext.
        if ciphertext = [] \<or> length ciphertext mod 16 \<noteq> 0
        then Inl (Error ''wrong final block length'') else Inr ciphertext)\<rparr>
     ''hello'' ''secret'' = Inl (Error ''wrong final block length'')"
    by code_simp
  show ?thesis
    using h decryptAES256CBC_never_raises [of
      "\<lparr>from_base64 = map (\<lambda>c. int (of_char c :: nat)),
        utf8_string = map (\<lambda>b. char_of (nat b)),
        aes_256_cbc_decipher = (\<lambda>key iv ciphertext.
          if ciphertext = [] \<or> length ciphertext mod 16 \<noteq> 0
          then Inl (Error ''wrong final block length'') else Inr ciphertext)\<rparr>"
      "''hello''" "''secret''"]
    by (simp add: error_message_def)
qed

section \<open>Properties of the key parser\<close>


lemma digit_code: "is_decimal_digit c \<Longrightarrow> 0 \<le> int (of_char c :: nat) - 48 \<and> int (of_char c :: nat) - 48 \<le> 9"
  by (simp add: is_decimal_digit_def)

lemma decimal_digit_not_space: "is_decimal_digit c \<Longrightarrow> \<not> is_space c"
  by (auto simp add: is_decimal_digit_def is_space_def)

lemma decimal_digit_not_x: "is_decimal_digit c \<Longrightarrow> c \<noteq> CHR ''x''"
  by (auto simp add: is_decimal_digit_def)

lemma trim_decimal:
  assumes "matches_decimal s"
  shows "trim s = s"
proof -
  from assms obtain c rest where s: "s = c # rest" and all: "list_all is_decimal_digit s"
    by (cases s) (simp_all add: matches_decimal_def)
  have "\<not> is_space c"
    using all s decimal_digit_not_space by simp
  then have front: "dropWhile is_space s = s"
    using s by simp
  have "last s \<in> set s"
    using s by (intro last_in_set) simp
  then have "\<not> is_space (last s)"
    using all decimal_digit_not_space by (simp add: list_all_iff)
  moreover have "s \<noteq> []"
    using s by simp
  then have "hd (rev s) = last s"
    by (simp add: hd_rev)
  ultimately have "\<not> is_space (hd (rev s))"
    by simp
  then have "dropWhile is_space (rev s) = rev s"
    by (simp add: dropWhile_eq_self_iff)
  then show ?thesis
    by (simp add: trim_def front)
qed

lemma BigInt_of_snoc:
  "BigInt_of base (s @ [c]) = BigInt_of base s * base + (int (of_char c :: nat) - 48)"
  by (simp add: BigInt_of_def)

lemma BigInt_decimal_bounds:
  "list_all is_decimal_digit s \<Longrightarrow> 0 \<le> BigInt_of 10 s \<and> BigInt_of 10 s < 10 ^ length s"
proof (induction s rule: rev_induct)
  case Nil
  then show ?case by (simp add: BigInt_of_def)
next
  case (snoc c s)
  then have ih: "0 \<le> BigInt_of 10 s" "BigInt_of 10 s + 1 \<le> 10 ^ length s"
    and d: "0 \<le> int (of_char c :: nat) - 48" "int (of_char c :: nat) - 48 \<le> 9"
    using digit_code [of c] by simp_all
  have "(BigInt_of 10 s + 1) * 10 \<le> 10 ^ length s * 10"
    using ih(2) by (intro mult_right_mono) simp_all
  then show ?case
    using ih(1) d by (simp add: BigInt_of_snoc algebra_simps)
qed

lemma toString16_length: "0 \<le> n \<Longrightarrow> 16 ^ k \<le> n \<Longrightarrow> k < length (toString16 n)"
proof (induction k arbitrary: n)
  case 0
  then show ?case
    by (subst toString16.simps) simp
next
  case (Suc k)
  have big: "16 \<le> n"
  proof -
    have a: "(16::int) \<le> 16 * 16 ^ k"
      by simp
    have b: "16 * 16 ^ k \<le> n"
      using Suc.prems(2) by simp
    show ?thesis using a b by (rule order_trans)
  qed
  have "16 ^ k \<le> n div 16"
  proof -
    have "16 ^ k * 16 \<le> n"
      using Suc.prems(2) by (simp add: mult.commute)
    then have "16 ^ k * 16 div 16 \<le> n div 16"
      by (intro zdiv_mono1) simp_all
    then show ?thesis by simp
  qed
  moreover have "0 \<le> n div 16"
    using Suc.prems(1) by simp
  ultimately have "k < length (toString16 (n div 16))"
    using Suc.IH by blast
  then show ?case
    using big by (subst toString16.simps) simp
qed

lemma overflow_hex_longer:
  assumes "2 ^ 256 \<le> n"
  shows "\<not> length (padStart 64 c (toString16 n)) \<le> 64"
proof -
  have "(16::int) ^ 64 = 2 ^ 256"
    by simp
  then have "16 ^ 64 \<le> n"
    using assms by simp
  moreover have "0 \<le> n"
    using assms by (rule order_trans [rotated]) simp
  ultimately have "64 < length (toString16 n)"
    using toString16_length by blast
  then show ?thesis
    by (simp add: padStart_def)
qed

lemma overflow_long:
  assumes "list_all is_decimal_digit s" "2 ^ 256 \<le> BigInt_of 10 s"
  shows "77 < length s"
proof (rule ccontr)
  assume "\<not> 77 < length s"
  then have "length s \<le> 77" by simp
  then have "(10::int) ^ length s \<le> 10 ^ 77"
    by (intro power_increasing) simp_all
  moreover have "BigInt_of 10 s < 10 ^ length s"
    using BigInt_decimal_bounds [OF assms(1)] by simp
  moreover have "(10::int) ^ 77 < 2 ^ 256"
    by simp
  ultimately show False
    using assms(2) by linarith
qed

text \<open>
  Claim C9 (decimal overflow is rejected), as the claim states it: the input of a 1 and
  78 zeros is a decimal number above \<open>2 ^ 256\<close>; the decimal branch gives it up, and
  the bit-string branch that follows accepts it as the number \<open>2 ^ 78\<close>.
\<close>

theorem parsePrivateKey_overflow_read_as_binary_counterexample:
  "matches_decimal ''1000000000000000000000000000000000000000000000000000000000000000000000000000000'' \<and>
   2 ^ 256 \<le> BigInt_of 10 ''1000000000000000000000000000000000000000000000000000000000000000000000000000000'' \<and>
   parsePrivateKey ''1000000000000000000000000000000000000000000000000000000000000000000000000000000''
     = \<lparr>privateKeyHex = ''0000000000000000000000000000000000000000000040000000000000000000'',
        format = Binary, error = None\<rparr>"
  by code_simp

text \<open>
  Claim C9, amended: an input of decimal digits only whose value is at least \<open>2 ^ 256\<close>
  is not read as a decimal number; it is read as a bit string when it has only the
  digits 0 and 1 and at most 256 of them, and otherwise \<open>parsePrivateKey\<close> returns the
  \<open>unknown\<close> error result.
\<close>

theorem parsePrivateKey_decimal_overflow:
  assumes "matches_decimal s" and "2 ^ 256 \<le> BigInt_of 10 s"
  shows "parsePrivateKey s =
    (if matches_binary s \<and> length s \<le> 256
     then \<lparr>privateKeyHex = padStart 64 (CHR ''0'') (toString16 (BigInt_of 2 s)),
           format = Binary, error = None\<rparr>
     else \<lparr>privateKeyHex = [], format = Unknown,
           error = Some ''Could not parse private key format''\<rparr>)"
proof -
  have all: "list_all is_decimal_digit s"
    using assms(1) by (simp add: matches_decimal_def)
  have len: "77 < length s"
    using all assms(2) by (rule overflow_long)
  have no_hex: "\<not> matches_hex64 s"
    using len by (simp add: matches_hex64_def)
  have no_wif: "\<not> matches_wif s"
    using len by (cases s) (auto simp add: matches_wif_def)
  have no_dec: "\<not> length (padStart 64 (CHR ''0'') (toString16 (BigInt_of 10 s))) \<le> 64"
    using assms(2) by (rule overflow_hex_longer)
  have no_0x: "\<not> matches_0x_hex s"
  proof
    assume "matches_0x_hex s"
    then have t: "take 2 s = ''0x''"
      by (simp add: matches_0x_hex_def)
    then obtain a rest where "s = a # CHR ''x'' # rest"
      by (cases s; cases "tl s") auto
    then show False
      using all decimal_digit_not_x [of "CHR ''x''"] by simp
  qed
  show ?thesis
    using no_hex no_wif no_dec no_0x
    by (simp add: parsePrivateKey_def trim_decimal [OF assms(1)])
qed

text \<open>Claim C9, amended, at the input of a 9 and 78 zeros.\<close>

theorem parsePrivateKey_decimal_overflow_witness:
  "matches_decimal ''9000000000000000000000000000000000000000000000000000000000000000000000000000000'' \<and>
   2 ^ 256 \<le> BigInt_of 10 ''9000000000000000000000000000000000000000000000000000000000000000000000000000000'' \<and>
   parsePrivateKey ''9000000000000000000000000000000000000000000000000000000000000000000000000000000''
     = \<lparr>privateKeyHex = [], format = Unknown, error = Some ''Could not parse private key format''\<rparr>"
proof -
  have h1: "matches_decimal ''9000000000000000000000000000000000000000000000000000000000000000000000000000000''"
    by code_simp
  have h2: "2 ^ 256 \<le> BigInt_of 10 ''9000000000000000000000000000000000000000000000000000000000000000000000000000000''"
    by code_simp
  have h3: "\<not> matches_binary ''9000000000000000000000000000000000000000000000000000000000000000000000000000000''"
    by code_simp
  show ?thesis
    using h1 h2 h3 parsePrivateKey_decimal_overflow [OF h1 h2] by simp
qed

end
